theory Spec2Isabelle
  imports Complex_Main "HOL-Library.Word"
begin

section \<open>JavaScript numbers\<close>

text \<open>
  The program is \<^verbatim>\<open>src/src/App.jsx\<close>, an image-annotation canvas. Its arithmetic is on
  JavaScript numbers. They are modelled as the reals extended with the three special
  values of IEEE 754, so that a division \<open>0 / 0\<close> yields \<open>NaN\<close> and the comparisons with
  \<open>NaN\<close> are false, as in the source. Rounding, overflow and the sign of zero are not
  modelled: finite arithmetic is exact, and zero counts as positive in a division.
\<close>

datatype jsnum = Fin real | PInf | NInf | NaN

fun is_fin :: "jsnum \<Rightarrow> bool" where
  "is_fin (Fin r) = True"
| "is_fin PInf = False"
| "is_fin NInf = False"
| "is_fin NaN = False"

fun the_fin :: "jsnum \<Rightarrow> real" where
  "the_fin (Fin r) = r"
| "the_fin PInf = 0"
| "the_fin NInf = 0"
| "the_fin NaN = 0"

text \<open>The sign of a number that is not NaN: \<open>1\<close>, \<open>0\<close> or \<open>-1\<close>.\<close>

fun js_sgn :: "jsnum \<Rightarrow> real" where
  "js_sgn (Fin r) = sgn r"
| "js_sgn PInf = 1"
| "js_sgn NInf = - 1"
| "js_sgn NaN = 0"

definition js_inf :: "real \<Rightarrow> jsnum" where
  "js_inf s = (if 0 \<le> s then PInf else NInf)"

fun js_add :: "jsnum \<Rightarrow> jsnum \<Rightarrow> jsnum" where
  "js_add NaN b = NaN"
| "js_add a NaN = NaN"
| "js_add (Fin a) (Fin b) = Fin (a + b)"
| "js_add PInf NInf = NaN"
| "js_add NInf PInf = NaN"
| "js_add PInf b = PInf"
| "js_add NInf b = NInf"
| "js_add a PInf = PInf"
| "js_add a NInf = NInf"

fun js_neg :: "jsnum \<Rightarrow> jsnum" where
  "js_neg (Fin a) = Fin (- a)"
| "js_neg PInf = NInf"
| "js_neg NInf = PInf"
| "js_neg NaN = NaN"

fun js_mul :: "jsnum \<Rightarrow> jsnum \<Rightarrow> jsnum" where
  "js_mul NaN b = NaN"
| "js_mul a NaN = NaN"
| "js_mul (Fin a) (Fin b) = Fin (a * b)"
| "js_mul a b = (if js_sgn a * js_sgn b = 0 then NaN else js_inf (js_sgn a * js_sgn b))"

fun js_div :: "jsnum \<Rightarrow> jsnum \<Rightarrow> jsnum" where
  "js_div NaN b = NaN"
| "js_div a NaN = NaN"
| "js_div (Fin a) (Fin b) =
     (if b = 0 then (if a = 0 then NaN else js_inf a) else Fin (a / b))"
| "js_div (Fin a) b = Fin 0"
| "js_div a (Fin b) = js_inf (js_sgn a * (if b < 0 then - 1 else 1))"
| "js_div a b = NaN"

fun js_less :: "jsnum \<Rightarrow> jsnum \<Rightarrow> bool" where
  "js_less NaN b = False"
| "js_less a NaN = False"
| "js_less (Fin a) (Fin b) = (a < b)"
| "js_less PInf b = False"
| "js_less a NInf = False"
| "js_less NInf b = True"
| "js_less a PInf = True"

fun js_le :: "jsnum \<Rightarrow> jsnum \<Rightarrow> bool" where
  "js_le NaN b = False"
| "js_le a NaN = False"
| "js_le a b = (a = b \<or> js_less a b)"

instantiation jsnum :: "{plus, minus, uminus, times, inverse, ord}"
begin

definition plus_jsnum :: "jsnum \<Rightarrow> jsnum \<Rightarrow> jsnum" where
  "plus_jsnum = js_add"

definition uminus_jsnum :: "jsnum \<Rightarrow> jsnum" where
  "uminus_jsnum = js_neg"

definition minus_jsnum :: "jsnum \<Rightarrow> jsnum \<Rightarrow> jsnum" where
  "minus_jsnum a b = js_add a (js_neg b)"

definition times_jsnum :: "jsnum \<Rightarrow> jsnum \<Rightarrow> jsnum" where
  "times_jsnum = js_mul"

definition divide_jsnum :: "jsnum \<Rightarrow> jsnum \<Rightarrow> jsnum" where
  "divide_jsnum = js_div"

definition inverse_jsnum :: "jsnum \<Rightarrow> jsnum" where
  "inverse_jsnum a = js_div (Fin 1) a"

definition less_jsnum :: "jsnum \<Rightarrow> jsnum \<Rightarrow> bool" where
  "less_jsnum = js_less"

definition less_eq_jsnum :: "jsnum \<Rightarrow> jsnum \<Rightarrow> bool" where
  "less_eq_jsnum = js_le"

instance ..

end

text \<open>\<^verbatim>\<open>Math.max\<close>, \<^verbatim>\<open>Math.min\<close>, \<^verbatim>\<open>Math.abs\<close>, \<^verbatim>\<open>Math.hypot\<close> and \<^verbatim>\<open>Math.round\<close> of ECMAScript.\<close>

definition Math_max :: "jsnum \<Rightarrow> jsnum \<Rightarrow> jsnum" where
  "Math_max a b = (if a = NaN \<or> b = NaN then NaN else if a < b then b else a)"

definition Math_min :: "jsnum \<Rightarrow> jsnum \<Rightarrow> jsnum" where
  "Math_min a b = (if a = NaN \<or> b = NaN then NaN else if b < a then b else a)"

fun Math_abs :: "jsnum \<Rightarrow> jsnum" where
  "Math_abs (Fin a) = Fin \<bar>a\<bar>"
| "Math_abs PInf = PInf"
| "Math_abs NInf = PInf"
| "Math_abs NaN = NaN"

definition hypot :: "real \<Rightarrow> real \<Rightarrow> real" where
  "hypot a b = sqrt (a * a + b * b)"

fun Math_hypot :: "jsnum \<Rightarrow> jsnum \<Rightarrow> jsnum" where
  "Math_hypot (Fin a) (Fin b) = Fin (hypot a b)"
| "Math_hypot PInf b = PInf"
| "Math_hypot NInf b = PInf"
| "Math_hypot a PInf = PInf"
| "Math_hypot a NInf = PInf"
| "Math_hypot a b = NaN"

fun Math_round :: "jsnum \<Rightarrow> jsnum" where
  "Math_round (Fin a) = Fin (of_int \<lfloor>a + 1 / 2\<rfloor>)"
| "Math_round a = a"

text \<open>A number is falsy when it is zero or NaN; \<open>a || b\<close> is \<open>b\<close> then, \<open>a\<close> otherwise.\<close>

definition js_or :: "jsnum \<Rightarrow> jsnum \<Rightarrow> jsnum" where
  "js_or a b = (if a = Fin 0 \<or> a = NaN then b else a)"

section \<open>Data model\<close>

text \<open>
  The component keeps its data in React state (\<^verbatim>\<open>useState\<close>) and in reference cells
  (\<^verbatim>\<open>useRef\<close>), lines 43-95 of \<^verbatim>\<open>App.jsx\<close>. The record \<open>app\<close> below has one field for
  each of them that a handler reads or writes, and every handler takes the record and
  returns it updated. A point \<^verbatim>\<open>{x, y}\<close> is a pair. The scheduling of redraws
  (\<^verbatim>\<open>requestRedraw\<close>), pointer capture, the cached analysis canvas and the precision that
  a canvas loses by storing premultiplied alpha are left out: the canvas that the
  analyzer reads holds the pixels of the loaded image.
\<close>

type_synonym point = "jsnum \<times> jsnum"

datatype tool = Pen | Eraser | Magnet | Hand

datatype side = Left | Right

text \<open>A stroke \<^verbatim>\<open>{ points, color, size, isEraser }\<close> (line 503).\<close>

record ink_path =
  points :: "point list"
  color :: string
  size_p :: jsnum
  isEraser :: bool

text \<open>A viewport transform \<^verbatim>\<open>{ x, y, k }\<close> (lines 79 and 94).\<close>

record transform =
  tr_x :: jsnum
  tr_y :: jsnum
  tr_k :: jsnum

text \<open>
  A decoded image: its integer size and its pixels, four bytes (red, green, blue,
  alpha) at each position inside the size.
\<close>

type_synonym rgba = "8 word \<times> 8 word \<times> 8 word \<times> 8 word"

record image =
  img_width :: nat
  img_height :: nat
  img_pixel :: "nat \<Rightarrow> nat \<Rightarrow> rgba"

text \<open>The fields of a pointer, mouse or wheel event that the handlers read.\<close>

record dom_event =
  pointerId :: int
  clientX :: jsnum
  clientY :: jsnum
  button :: int
  deltaY :: jsnum

text \<open>\<^verbatim>\<open>containerRef.current.getBoundingClientRect()\<close>.\<close>

record dom_rect =
  rect_left :: jsnum
  rect_top :: jsnum
  rect_width :: jsnum
  rect_height :: jsnum

text \<open>\<^verbatim>\<open>gestureState\<close> (line 83); \<^verbatim>\<open>null\<close> is \<open>None\<close>.\<close>

record gesture =
  lastDist :: jsnum
  lastCenter :: "point option"
  lastPos :: "point option"

text \<open>
  The ways in which a call does not complete: an exception that nothing catches, or a
  loop that does not end.
\<close>

datatype failure = IndexSizeError | TypeError | Nontermination

text \<open>
  The session state. \<open>image_st\<close>, \<open>referenceImage\<close>, \<open>tool\<close>, \<open>cur_color\<close>, \<open>cur_size\<close>,
  \<open>version\<close>, \<open>isComparing\<close> and \<open>sliderPos\<close> are the React state \<^verbatim>\<open>image\<close>,
  \<^verbatim>\<open>referenceImage\<close>, \<^verbatim>\<open>tool\<close>, \<^verbatim>\<open>color\<close>, \<^verbatim>\<open>size\<close>, \<^verbatim>\<open>version\<close>, \<^verbatim>\<open>isComparing\<close> and
  \<^verbatim>\<open>sliderPos\<close>; the other fields are the reference cells of the same names. \<open>pointers\<close>
  is the \<^verbatim>\<open>Map\<close> from pointer id to its last event, in insertion order. \<open>container\<close> is the
  bounding rectangle of the canvas container. \<open>failed\<close> collects the failures of
  the handlers: a handler stops where the exception is thrown, and the mutations it
  made before stay.

  An array is a list, \<^verbatim>\<open>push\<close> appends at the end and \<^verbatim>\<open>pop\<close> removes the last element.
  The source copies the stroke array (\<^verbatim>\<open>[...paths.current]\<close>) whenever it stores it in a
  stack, and replaces \<^verbatim>\<open>paths.current\<close> by the popped array, so no array is reachable
  from two places and lists as values lose nothing.
\<close>

record app =
  image_st :: "image option"
  referenceImage :: "image option"
  tool :: tool
  cur_color :: string
  cur_size :: jsnum
  version :: nat
  isComparing :: bool
  sliderPos :: jsnum
  paths :: "ink_path list"
  history :: "ink_path list list"
  transform :: transform
  currentPath :: "ink_path option"
  pointers :: "(int \<times> dom_event) list"
  activeSide :: side
  gestureState :: gesture
  isMiddleMousePanning :: bool
  middleMouseLastPos :: "point option"
  redoStack :: "ink_path list list"
  refRedoStack :: "ink_path list list"
  refPaths :: "ink_path list"
  refHistory :: "ink_path list list"
  refTransform :: transform
  currentRefPath :: "ink_path option"
  container :: dom_rect
  failed :: "failure list"

text \<open>\<^verbatim>\<open>Map.prototype.set\<close>, \<^verbatim>\<open>delete\<close> and \<^verbatim>\<open>has\<close> on the insertion-ordered map.\<close>

fun map_set :: "(int \<times> 'v) list \<Rightarrow> int \<Rightarrow> 'v \<Rightarrow> (int \<times> 'v) list" where
  "map_set [] k v = [(k, v)]"
| "map_set ((k', v') # m) k v = (if k' = k then (k, v) # m else (k', v') # map_set m k v)"

definition map_delete :: "(int \<times> 'v) list \<Rightarrow> int \<Rightarrow> (int \<times> 'v) list" where
  "map_delete m k = filter (\<lambda>kv. fst kv \<noteq> k) m"

definition map_has :: "(int \<times> 'v) list \<Rightarrow> int \<Rightarrow> bool" where
  "map_has m k = (k \<in> set (map fst m))"

section \<open>Ink path model and history\<close>

text \<open>
  \<^verbatim>\<open>handlePointerUp\<close> (lines 602-628). A release of the middle button while it pans
  returns at once. Otherwise the pointer is unregistered and each pane's in-progress
  stroke, when there is one, is committed: the stroke list is pushed on the pane's
  history, the pane's redo stack is emptied and the stroke is appended.
\<close>

definition handlePointerUp :: "dom_event \<Rightarrow> app \<Rightarrow> app" where
  "handlePointerUp e s =
    (if isMiddleMousePanning s \<and> button e = 1
     then s\<lparr>isMiddleMousePanning := False, middleMouseLastPos := None\<rparr>
     else
       let s1 = s\<lparr>pointers := map_delete (pointers s) (pointerId e)\<rparr>;
           s2 = (case currentPath s1 of
                   None \<Rightarrow> s1
                 | Some p \<Rightarrow> s1\<lparr>history := history s1 @ [paths s1], redoStack := [],
                               paths := paths s1 @ [p], currentPath := None\<rparr>);
           s3 = (case currentRefPath s2 of
                   None \<Rightarrow> s2
                 | Some p \<Rightarrow> s2\<lparr>refHistory := refHistory s2 @ [refPaths s2], refRedoStack := [],
                               refPaths := refPaths s2 @ [p], currentRefPath := None\<rparr>);
           s4 = s3\<lparr>version := version s3 + 1\<rparr>
       in (case pointers s4 of
             [(i, p)] \<Rightarrow> s4\<lparr>gestureState := (gestureState s4)\<lparr>lastPos := Some (clientX p, clientY p)\<rparr>\<rparr>
           | _ \<Rightarrow> s4))"

text \<open>\<^verbatim>\<open>handleUndo\<close> and \<^verbatim>\<open>handleRedo\<close> (lines 666-680), for the workspace pane.\<close>

definition handleUndo :: "app \<Rightarrow> app" where
  "handleUndo s =
    (if length (history s) > 0
     then s\<lparr>redoStack := redoStack s @ [paths s], paths := last (history s),
            history := butlast (history s), version := version s + 1\<rparr>
     else s)"

definition handleRedo :: "app \<Rightarrow> app" where
  "handleRedo s =
    (if length (redoStack s) > 0
     then s\<lparr>history := history s @ [paths s], paths := last (redoStack s),
            redoStack := butlast (redoStack s), version := version s + 1\<rparr>
     else s)"

text \<open>\<^verbatim>\<open>handleRefUndo\<close> and \<^verbatim>\<open>handleRefRedo\<close> (lines 682-696), for the reference pane.\<close>

definition handleRefUndo :: "app \<Rightarrow> app" where
  "handleRefUndo s =
    (if length (refHistory s) > 0
     then s\<lparr>refRedoStack := refRedoStack s @ [refPaths s], refPaths := last (refHistory s),
            refHistory := butlast (refHistory s), version := version s + 1\<rparr>
     else s)"

definition handleRefRedo :: "app \<Rightarrow> app" where
  "handleRefRedo s =
    (if length (refRedoStack s) > 0
     then s\<lparr>refHistory := refHistory s @ [refPaths s], refPaths := last (refRedoStack s),
            refRedoStack := butlast (refRedoStack s), version := version s + 1\<rparr>
     else s)"

text \<open>\<^verbatim>\<open>handleClear\<close> and \<^verbatim>\<open>handleRefClear\<close> (lines 698-710).\<close>

definition handleClear :: "app \<Rightarrow> app" where
  "handleClear s =
    s\<lparr>history := history s @ [paths s], redoStack := [], paths := [],
      version := version s + 1\<rparr>"

definition handleRefClear :: "app \<Rightarrow> app" where
  "handleRefClear s =
    s\<lparr>refHistory := refHistory s @ [refPaths s], refRedoStack := [], refPaths := [],
      version := version s + 1\<rparr>"

text \<open>
  The image-load callbacks of \<^verbatim>\<open>handleFile\<close> (lines 752-760) and \<^verbatim>\<open>handleReferenceFile\<close>
  (lines 772-785), run when the browser has decoded the chosen file into \<open>img\<close>. The
  scale is fitted to the pane: \<open>min (availW / width) (availH / height) * 0.9\<close>.
\<close>

definition scaleFit :: "jsnum \<Rightarrow> jsnum \<Rightarrow> image \<Rightarrow> jsnum" where
  "scaleFit availW availH img =
     Math_min (availW / Fin (real (img_width img))) (availH / Fin (real (img_height img)))
       * Fin 0.9"

definition handleFile :: "image \<Rightarrow> app \<Rightarrow> app" where
  "handleFile img s =
    (let rect = container s;
         availW = (if isComparing s then rect_width rect * sliderPos s else rect_width rect);
         k = scaleFit availW (rect_height rect) img
     in s\<lparr>image_st := Some img,
          transform := \<lparr>tr_x = Fin 0, tr_y = Fin 0, tr_k = k\<rparr>,
          paths := [], history := []\<rparr>)"

definition handleReferenceFile :: "image \<Rightarrow> app \<Rightarrow> app" where
  "handleReferenceFile img s =
    (let rect = container s;
         availW = rect_width rect * (Fin 1 - sliderPos s);
         availH = rect_height rect;
         k = scaleFit availW availH img
     in s\<lparr>referenceImage := Some img,
          refPaths := [], refHistory := [],
          refTransform := \<lparr>tr_x = Fin 0, tr_y = Fin 0, tr_k = k\<rparr>,
          isComparing := True\<rparr>)"

section \<open>Edge-snap analyzer\<close>

text \<open>
  \<^verbatim>\<open>snapToEdge\<close> (lines 246-390) reads the pixels of the target image through the analysis
  canvas, a copy of the image that is redrawn whenever the image's identity changes
  (lines 297-303); the embedding reads the image itself.

  \<^verbatim>\<open>getImageData(sx, sy, sw, sh)\<close> of the canvas API: the arguments are converted to
  32-bit integers (a value that is not finite, or out of range after truncation, is a
  \<^verbatim>\<open>TypeError\<close>), a zero width or height is an \<^verbatim>\<open>IndexSizeError\<close>, a negative one
  mirrors the rectangle, and the result holds four bytes for each pixel of the
  rectangle, row by row, transparent black outside the canvas.
\<close>

definition to_long :: "jsnum \<Rightarrow> failure + int" where
  "to_long v =
    (case v of
       Fin r \<Rightarrow>
         (let z = (if r < 0 then \<lceil>r\<rceil> else \<lfloor>r\<rfloor>)
          in if - 2147483648 \<le> z \<and> z \<le> 2147483647 then Inr z else Inl TypeError)
     | _ \<Rightarrow> Inl TypeError)"

definition canvas_pixel :: "image \<Rightarrow> int \<Rightarrow> int \<Rightarrow> rgba" where
  "canvas_pixel img px py =
    (if 0 \<le> px \<and> px < int (img_width img) \<and> 0 \<le> py \<and> py < int (img_height img)
     then img_pixel img (nat px) (nat py) else (0, 0, 0, 0))"

definition channel :: "rgba \<Rightarrow> nat \<Rightarrow> 8 word" where
  "channel p c =
    (case p of (r, g, b, a) \<Rightarrow> if c = 0 then r else if c = 1 then g else if c = 2 then b else a)"

definition image_bytes :: "image \<Rightarrow> int \<Rightarrow> int \<Rightarrow> nat \<Rightarrow> nat \<Rightarrow> 8 word list" where
  "image_bytes img sx sy sw sh =
    map (\<lambda>i. channel (canvas_pixel img (sx + int ((i div 4) mod sw)) (sy + int ((i div 4) div sw)))
                 (i mod 4))
        [0..<sw * sh * 4]"

definition getImageData :: "image \<Rightarrow> jsnum \<Rightarrow> jsnum \<Rightarrow> jsnum \<Rightarrow> jsnum \<Rightarrow> failure + 8 word list" where
  "getImageData img sx sy sw sh =
    (case (to_long sx, to_long sy, to_long sw, to_long sh) of
       (Inr x, Inr y, Inr w, Inr h) \<Rightarrow>
         if w = 0 \<or> h = 0 then Inl IndexSizeError
         else Inr (image_bytes img (if w < 0 then x + w else x) (if h < 0 then y + h else y)
                     (nat \<bar>w\<bar>) (nat \<bar>h\<bar>))
     | _ \<Rightarrow> Inl TypeError)"

text \<open>
  \<^verbatim>\<open>data[i]\<close> on the byte array: \<^verbatim>\<open>undefined\<close> (\<open>None\<close>) unless \<open>i\<close> is an integer within the
  array. In arithmetic \<^verbatim>\<open>undefined\<close> is NaN; \<^verbatim>\<open>data[i] || 0\<close> turns it into zero.
\<close>

definition data_get :: "8 word list \<Rightarrow> jsnum \<Rightarrow> 8 word option" where
  "data_get d i =
    (case i of
       Fin r \<Rightarrow> if 0 \<le> r \<and> r = of_int \<lfloor>r\<rfloor> \<and> nat \<lfloor>r\<rfloor> < length d
                then Some (d ! nat \<lfloor>r\<rfloor>) else None
     | _ \<Rightarrow> None)"

definition to_number :: "8 word option \<Rightarrow> jsnum" where
  "to_number v = (case v of None \<Rightarrow> NaN | Some b \<Rightarrow> Fin (real (unat b)))"

definition or_zero :: "8 word option \<Rightarrow> jsnum" where
  "or_zero v = (case v of None \<Rightarrow> Fin 0 | Some b \<Rightarrow> Fin (real (unat b)))"

text \<open>
  The values of the counter of \<^verbatim>\<open>for (let v = a; v < b; v++)\<close>. The loop does not end
  (\<open>None\<close>) when it starts at \<open>-Infinity\<close> below its bound, or runs up to \<open>+Infinity\<close>.
\<close>

definition for_range :: "jsnum \<Rightarrow> jsnum \<Rightarrow> jsnum list option" where
  "for_range a b =
    (case (a, b) of
       (Fin x, Fin y) \<Rightarrow> Some (map (\<lambda>i. Fin (x + real i)) [0..<nat \<lceil>y - x\<rceil>])
     | (Fin x, PInf) \<Rightarrow> None
     | (NInf, Fin y) \<Rightarrow> None
     | (NInf, PInf) \<Rightarrow> None
     | _ \<Rightarrow> Some [])"

text \<open>
  The drawing direction (lines 252-283): a weighted mean of the unit directions of the
  last segments of the stroke, at most 24 of them, older segments weighing more; a
  segment shorter than 0.5 is skipped. The indices \<open>i\<close> and \<open>i + 1\<close> lie within the list.
\<close>

definition direction_step ::
  "point list \<Rightarrow> nat \<Rightarrow> jsnum \<times> jsnum \<times> jsnum \<Rightarrow> jsnum \<times> jsnum \<times> jsnum" where
  "direction_step prevPoints i acc =
    (case acc of (dirX, dirY, totalWeight) \<Rightarrow>
      let segDx = fst (prevPoints ! (i + 1)) - fst (prevPoints ! i);
          segDy = snd (prevPoints ! (i + 1)) - snd (prevPoints ! i);
          segLen = Math_hypot segDx segDy
      in if segLen < Fin 0.5 then acc
         else
           let age = Fin (real (length prevPoints - 1 - i));
               weight = Fin 1.0 + age * Fin 0.3
           in (dirX + (segDx / segLen) * weight, dirY + (segDy / segLen) * weight,
               totalWeight + weight))"

definition drawDirection :: "point list option \<Rightarrow> jsnum \<times> jsnum \<times> bool" where
  "drawDirection prev =
    (case prev of
       None \<Rightarrow> (Fin 0, Fin 0, False)
     | Some prevPoints \<Rightarrow>
         if length prevPoints \<ge> 3 then
           (let len = length prevPoints;
                lookback = min len 25
            in case fold (direction_step prevPoints) [len - lookback..<len - 1]
                      (Fin 0, Fin 0, Fin 0) of
                 (dirX, dirY, totalWeight) \<Rightarrow>
                   if totalWeight > Fin 0 then
                     (let dirX1 = dirX / totalWeight;
                          dirY1 = dirY / totalWeight;
                          dirLen = Math_hypot dirX1 dirY1
                      in if dirLen > Fin 0.1 then (dirX1 / dirLen, dirY1 / dirLen, True)
                         else (dirX1, dirY1, False))
                   else (dirX, dirY, False))
         else (Fin 0, Fin 0, False))"

text \<open>What the scan of the neighbourhood reads (the variables of lines 249-310).\<close>

record scan_ctx =
  data :: "8 word list"
  padStartX :: jsnum
  padStartY :: jsnum
  padW :: jsnum
  imgX :: jsnum
  imgY :: jsnum
  dirX :: jsnum
  dirY :: jsnum
  perpX :: jsnum
  perpY :: jsnum
  hasDirection :: bool

text \<open>\<^verbatim>\<open>lum\<close> (lines 312-318): the luminance of a pixel, weighted by its alpha.\<close>

definition lum :: "scan_ctx \<Rightarrow> jsnum \<Rightarrow> jsnum \<Rightarrow> jsnum" where
  "lum c px py =
    (let lx = px - padStartX c;
         ly = py - padStartY c;
         i = (ly * padW c + lx) * Fin 4;
         a = to_number (data_get (data c) (i + Fin 3)) / Fin 255
     in (to_number (data_get (data c) i) * Fin 0.299
         + to_number (data_get (data c) (i + Fin 1)) * Fin 0.587
         + to_number (data_get (data c) (i + Fin 2)) * Fin 0.114) * a)"

text \<open>The gradient of the luminance and the edge strength of a candidate (lines 327-339).\<close>

definition grad_x :: "scan_ctx \<Rightarrow> jsnum \<Rightarrow> jsnum \<Rightarrow> jsnum" where
  "grad_x c px py = lum c (px + Fin 1) py - lum c (px - Fin 1) py"

definition grad_y :: "scan_ctx \<Rightarrow> jsnum \<Rightarrow> jsnum \<Rightarrow> jsnum" where
  "grad_y c px py = lum c px (py + Fin 1) - lum c px (py - Fin 1)"

definition alphaGrad :: "scan_ctx \<Rightarrow> jsnum \<Rightarrow> jsnum \<Rightarrow> jsnum" where
  "alphaGrad c px py =
    (let aL = or_zero (data_get (data c)
                 (((py - padStartY c) * padW c + (px - Fin 1 - padStartX c)) * Fin 4 + Fin 3));
         aR = or_zero (data_get (data c)
                 (((py - padStartY c) * padW c + (px + Fin 1 - padStartX c)) * Fin 4 + Fin 3));
         aU = or_zero (data_get (data c)
                 (((py - Fin 1 - padStartY c) * padW c + (px - padStartX c)) * Fin 4 + Fin 3));
         aD = or_zero (data_get (data c)
                 (((py + Fin 1 - padStartY c) * padW c + (px - padStartX c)) * Fin 4 + Fin 3))
     in Math_hypot (aR - aL) (aD - aU) / Fin 255)"

definition edgeStrength :: "scan_ctx \<Rightarrow> jsnum \<Rightarrow> jsnum \<Rightarrow> jsnum" where
  "edgeStrength c px py =
    Math_hypot (grad_x c px py) (grad_y c px py) + alphaGrad c px py * Fin 80"

text \<open>
  The body of the two nested loops (lines 326-371) for the candidate \<open>(px, py)\<close>, on
  \<open>(maxScore, bestX, bestY)\<close>.
\<close>

definition scan_step ::
  "scan_ctx \<Rightarrow> jsnum \<times> jsnum \<Rightarrow> jsnum \<times> jsnum \<times> jsnum \<Rightarrow> jsnum \<times> jsnum \<times> jsnum" where
  "scan_step c cand acc =
    (case (cand, acc) of ((px, py), (maxScore, bestX, bestY)) \<Rightarrow>
      let gx = grad_x c px py;
          gy = grad_y c px py;
          gradMag = Math_hypot gx gy
      in if edgeStrength c px py < Fin 5 then acc
         else
           let dx = px - imgX c;
               dy = py - imgY c;
               dist = Math_hypot dx dy
           in if hasDirection c then
                (let parallelDist = Math_abs (dx * dirX c + dy * dirY c);
                     perpDist = Math_abs (dx * perpX c + dy * perpY c);
                     edgeDirX = (if gradMag > Fin 0.1 then gx / gradMag else Fin 0);
                     edgeDirY = (if gradMag > Fin 0.1 then gy / gradMag else Fin 0);
                     orientationBonus = Math_abs (edgeDirX * dirX c + edgeDirY * dirY c) * Fin 15;
                     penalty = perpDist * Fin 8.0 + parallelDist * Fin 1.5;
                     score = edgeStrength c px py + orientationBonus - penalty
                 in if score > maxScore then (score, px, py) else acc)
              else
                (let penalty = dist * Fin 5.0;
                     score = edgeStrength c px py - penalty
                 in if score > maxScore then (score, px, py) else acc))"

text \<open>The clamp of the snap to 6 units from the cursor (lines 377-389).\<close>

definition snapClamp :: "jsnum \<Rightarrow> jsnum \<Rightarrow> image \<Rightarrow> jsnum \<Rightarrow> jsnum \<Rightarrow> point" where
  "snapClamp worldX worldY img bestX bestY =
    (let maxSnap = Fin 6;
         snapX = bestX - Fin (real (img_width img)) / Fin 2;
         snapY = bestY - Fin (real (img_height img)) / Fin 2;
         snapDx = snapX - worldX;
         snapDy = snapY - worldY;
         snapDist = Math_hypot snapDx snapDy
     in if snapDist > maxSnap then
          (let clampScale = maxSnap / snapDist
           in (worldX + snapDx * clampScale, worldY + snapDy * clampScale))
        else (snapX, snapY))"

text \<open>The candidates in the order of the loops: \<open>py\<close> outside, \<open>px\<close> inside.\<close>

definition candidates :: "jsnum list \<Rightarrow> jsnum list \<Rightarrow> (jsnum \<times> jsnum) list" where
  "candidates ys xs = concat (map (\<lambda>py. map (\<lambda>px. (px, py)) xs) ys)"

text \<open>
  The parts of \<^verbatim>\<open>snapToEdge\<close>: the pixel under the cursor (lines 249-250), the bounds
  \<open>(startX, startY, endX, endY)\<close> of the neighbourhood (lines 289-293), the test that
  returns early when it is too small (line 295), the padded pixel block with the
  direction (lines 252-287 and 297-310), and the candidates of the two loops (lines
  324-325; the inner loop only runs inside the outer one).
\<close>

definition cursorPixel :: "image \<Rightarrow> jsnum \<Rightarrow> jsnum \<Rightarrow> jsnum \<times> jsnum" where
  "cursorPixel img worldX worldY =
    (Math_round (worldX + Fin (real (img_width img)) / Fin 2),
     Math_round (worldY + Fin (real (img_height img)) / Fin 2))"

definition snapWindow :: "image \<Rightarrow> jsnum \<Rightarrow> jsnum \<Rightarrow> jsnum \<times> jsnum \<times> jsnum \<times> jsnum" where
  "snapWindow img worldX worldY =
    (case cursorPixel img worldX worldY of (imgX0, imgY0) \<Rightarrow>
      let r = Fin 8;
          startX = Math_max (Fin 1) (imgX0 - r);
          startY = Math_max (Fin 1) (imgY0 - r);
          endX = Math_min (Fin (real (img_width img)) - Fin 1) (imgX0 + r);
          endY = Math_min (Fin (real (img_height img)) - Fin 1) (imgY0 + r)
      in (startX, startY, endX, endY))"

definition windowCollapsed :: "image \<Rightarrow> jsnum \<Rightarrow> jsnum \<Rightarrow> bool" where
  "windowCollapsed img worldX worldY =
    (case snapWindow img worldX worldY of (startX, startY, endX, endY) \<Rightarrow>
      endX - startX \<le> Fin 2 \<or> endY - startY \<le> Fin 2)"

definition scanContext ::
  "image \<Rightarrow> jsnum \<Rightarrow> jsnum \<Rightarrow> point list option \<Rightarrow> failure + scan_ctx" where
  "scanContext img worldX worldY prevPoints =
    (case (cursorPixel img worldX worldY, snapWindow img worldX worldY, drawDirection prevPoints) of
       ((imgX0, imgY0), (startX, startY, endX, endY), (dx, dy, hasDir)) \<Rightarrow>
        let padX = Math_max (Fin 0) (startX - Fin 1);
            padY = Math_max (Fin 0) (startY - Fin 1);
            padWidth = Math_min (Fin (real (img_width img))) (endX + Fin 2) - padX;
            padHeight = Math_min (Fin (real (img_height img))) (endY + Fin 2) - padY
        in case getImageData img padX padY padWidth padHeight of
             Inl err \<Rightarrow> Inl err
           | Inr bytes \<Rightarrow>
               Inr \<lparr>data = bytes, padStartX = padX, padStartY = padY, padW = padWidth,
                    imgX = imgX0, imgY = imgY0, dirX = dx, dirY = dy,
                    perpX = (if hasDir then - dy else Fin 0),
                    perpY = (if hasDir then dx else Fin 0),
                    hasDirection = hasDir\<rparr>)"

definition scanCandidates :: "image \<Rightarrow> jsnum \<Rightarrow> jsnum \<Rightarrow> (jsnum \<times> jsnum) list option" where
  "scanCandidates img worldX worldY =
    (case snapWindow img worldX worldY of (startX, startY, endX, endY) \<Rightarrow>
      (case for_range startY endY of
         None \<Rightarrow> None
       | Some ys \<Rightarrow>
          (case (if ys = [] then Some [] else for_range startX endX) of
             None \<Rightarrow> None
           | Some xs \<Rightarrow> Some (candidates ys xs))))"

text \<open>\<^verbatim>\<open>snapToEdge\<close> (lines 246-390).\<close>

definition snapToEdge ::
  "jsnum \<Rightarrow> jsnum \<Rightarrow> image option \<Rightarrow> point list option \<Rightarrow> failure + point" where
  "snapToEdge worldX worldY targetImage prevPoints =
    (case targetImage of
       None \<Rightarrow> Inr (worldX, worldY)
     | Some img \<Rightarrow>
        if windowCollapsed img worldX worldY then Inr (worldX, worldY)
        else
          (case scanContext img worldX worldY prevPoints of
             Inl err \<Rightarrow> Inl err
           | Inr c \<Rightarrow>
              (case scanCandidates img worldX worldY of
                 None \<Rightarrow> Inl Nontermination
               | Some cands \<Rightarrow>
                  (case fold (scan_step c) cands (Fin (- 1), imgX c, imgY c) of
                     (maxScore, bestX, bestY) \<Rightarrow>
                       if maxScore < Fin 5 then Inr (worldX, worldY)
                       else Inr (snapClamp worldX worldY img bestX bestY)))))"

section \<open>Viewport transform\<close>

text \<open>
  \<^verbatim>\<open>toWorkspaceWorld\<close> (lines 435-441) and \<^verbatim>\<open>toReferenceWorld\<close> (lines 443-451): the
  world point of a client position, for the workspace pane and for the reference pane.
\<close>

definition toWorkspaceWorld :: "app \<Rightarrow> jsnum \<Rightarrow> jsnum \<Rightarrow> point" where
  "toWorkspaceWorld s cX cY =
    (let rect = container s;
         t = transform s;
         cx = rect_width rect / Fin 2;
         cy = rect_height rect / Fin 2
     in ((cX - rect_left rect - cx) / tr_k t - tr_x t,
         (cY - rect_top rect - cy) / tr_k t - tr_y t))"

definition toReferenceWorld :: "app \<Rightarrow> jsnum \<Rightarrow> jsnum \<Rightarrow> point" where
  "toReferenceWorld s cX cY =
    (let rect = container s;
         availW = rect_width rect * (Fin 1 - sliderPos s);
         startX = rect_width rect * sliderPos s;
         cx = startX + availW / Fin 2;
         cy = rect_height rect / Fin 2;
         t = refTransform s
     in ((cX - rect_left rect - cx) / tr_k t - tr_x t,
         (cY - rect_top rect - cy) / tr_k t - tr_y t))"

text \<open>
  The conversion of the pane on the given side, as the handlers select it (lines
  495-496 and 565-566), and the client position that it takes for the centre of the
  pane (\<open>cx\<close> and \<open>cy\<close> of lines 438-439 and 447-448, from the corner of the container).
\<close>

definition toWorld :: "side \<Rightarrow> app \<Rightarrow> jsnum \<Rightarrow> jsnum \<Rightarrow> point" where
  "toWorld sd s cX cY =
    (if sd = Left then toWorkspaceWorld s cX cY else toReferenceWorld s cX cY)"

definition paneCenter :: "side \<Rightarrow> app \<Rightarrow> point" where
  "paneCenter sd s =
    (let rect = container s
     in if sd = Left
        then (rect_left rect + rect_width rect / Fin 2, rect_top rect + rect_height rect / Fin 2)
        else (rect_left rect
                + (rect_width rect * sliderPos s + rect_width rect * (Fin 1 - sliderPos s) / Fin 2),
              rect_top rect + rect_height rect / Fin 2))"

text \<open>The transform of the pane on the given side.\<close>

definition pane_transform :: "side \<Rightarrow> app \<Rightarrow> transform" where
  "pane_transform sd s = (if sd = Left then transform s else refTransform s)"

definition set_pane_transform :: "side \<Rightarrow> transform \<Rightarrow> app \<Rightarrow> app" where
  "set_pane_transform sd t s =
    (if sd = Left then s\<lparr>transform := t\<rparr> else s\<lparr>refTransform := t\<rparr>)"

text \<open>
  The current transformation matrix of the 2D context, for the calls the renderer
  makes: \<^verbatim>\<open>scale\<close> and \<^verbatim>\<open>translate\<close> keep it diagonal, so it is the two scale factors
  \<open>m_a\<close>, \<open>m_d\<close> and the translation \<open>m_e\<close>, \<open>m_f\<close>; a point \<open>(px, py)\<close> is drawn at
  \<open>(m_a * px + m_e, m_d * py + m_f)\<close> in device pixels.
\<close>

record ctm =
  m_a :: jsnum
  m_d :: jsnum
  m_e :: jsnum
  m_f :: jsnum

definition ctx_identity :: ctm where
  "ctx_identity = \<lparr>m_a = Fin 1, m_d = Fin 1, m_e = Fin 0, m_f = Fin 0\<rparr>"

definition ctx_scale :: "jsnum \<Rightarrow> jsnum \<Rightarrow> ctm \<Rightarrow> ctm" where
  "ctx_scale sx sy m = m\<lparr>m_a := m_a m * sx, m_d := m_d m * sy\<rparr>"

definition ctx_translate :: "jsnum \<Rightarrow> jsnum \<Rightarrow> ctm \<Rightarrow> ctm" where
  "ctx_translate tx ty m = m\<lparr>m_e := m_e m + m_a m * tx, m_f := m_f m + m_d m * ty\<rparr>"

definition ctx_apply :: "ctm \<Rightarrow> point \<Rightarrow> point" where
  "ctx_apply m p = (m_a m * fst p + m_e m, m_d m * snd p + m_f m)"

text \<open>
  The matrix under which \<^verbatim>\<open>drawWorkspace\<close> (lines 130-156) draws the image and the
  strokes of the workspace pane, and \<^verbatim>\<open>drawReference\<close> (lines 158-186) those of the
  reference pane (nothing without a reference image), after \<^verbatim>\<open>draw\<close> has reset it (line 204). \<^verbatim>\<open>draw\<close> passes the slider
  position to \<^verbatim>\<open>drawWorkspace\<close> in comparison mode and \<open>1.0\<close> otherwise (lines 206-215).
\<close>

definition drawWorkspace :: "app \<Rightarrow> jsnum \<Rightarrow> jsnum \<Rightarrow> ctm" where
  "drawWorkspace s dpr sliderPosition =
    (let rect = container s;
         t = transform s;
         leftPaneWidth = rect_width rect * sliderPosition;
         cx = (if isComparing s then leftPaneWidth / Fin 2 else rect_width rect / Fin 2);
         cy = rect_height rect / Fin 2
     in ctx_translate (tr_x t) (tr_y t)
          (ctx_scale (tr_k t) (tr_k t)
            (ctx_translate cx cy
              (ctx_scale dpr dpr ctx_identity))))"

definition drawReference :: "app \<Rightarrow> jsnum \<Rightarrow> ctm option" where
  "drawReference s dpr =
    (let rect = container s;
         availW = rect_width rect * (Fin 1 - sliderPos s);
         startX = rect_width rect * sliderPos s;
         cx = startX + availW / Fin 2;
         cy = rect_height rect / Fin 2;
         t = refTransform s
     in case referenceImage s of
          None \<Rightarrow> None
        | Some img \<Rightarrow>
            Some (ctx_translate (tr_x t) (tr_y t)
                   (ctx_scale (tr_k t) (tr_k t)
                     (ctx_translate cx cy
                       (ctx_scale dpr dpr ctx_identity)))))"

definition draw_workspace_ctm :: "app \<Rightarrow> jsnum \<Rightarrow> ctm" where
  "draw_workspace_ctm s dpr =
    (if \<not> isComparing s then drawWorkspace s dpr (Fin 1.0) else drawWorkspace s dpr (sliderPos s))"

text \<open>
  The canvas fills the container and has \<open>dpr\<close> device pixels for each CSS pixel
  (lines 197-202), so the device pixel \<open>(X, Y)\<close> is seen at the client position
  \<open>(left + X / dpr, top + Y / dpr)\<close>.
\<close>

definition device_to_client :: "app \<Rightarrow> jsnum \<Rightarrow> point \<Rightarrow> point" where
  "device_to_client s dpr p =
    (rect_left (container s) + fst p / dpr, rect_top (container s) + snd p / dpr)"

text \<open>
  Where a world point of the workspace pane, and of the reference pane, is rendered, in
  client coordinates.
\<close>

definition workspace_rendered_at :: "app \<Rightarrow> jsnum \<Rightarrow> point \<Rightarrow> point" where
  "workspace_rendered_at s dpr wp = device_to_client s dpr (ctx_apply (draw_workspace_ctm s dpr) wp)"

definition reference_rendered_at :: "app \<Rightarrow> jsnum \<Rightarrow> point \<Rightarrow> point option" where
  "reference_rendered_at s dpr wp =
    map_option (\<lambda>m. device_to_client s dpr (ctx_apply m wp)) (drawReference s dpr)"

text \<open>
  \<^verbatim>\<open>recenterImage\<close> (lines 727-734) and \<^verbatim>\<open>recenterReferenceImage\<close> (lines 736-744) fit
  the scale to the pane as the image-load callbacks do.
\<close>

definition recenterImage :: "app \<Rightarrow> app" where
  "recenterImage s =
    (case image_st s of
       None \<Rightarrow> s
     | Some img \<Rightarrow>
        (let rect = container s;
             availW = (if isComparing s then rect_width rect * sliderPos s else rect_width rect);
             k = scaleFit availW (rect_height rect) img
         in s\<lparr>transform := \<lparr>tr_x = Fin 0, tr_y = Fin 0, tr_k = k\<rparr>\<rparr>))"

definition recenterReferenceImage :: "app \<Rightarrow> app" where
  "recenterReferenceImage s =
    (case referenceImage s of
       None \<Rightarrow> s
     | Some img \<Rightarrow>
        (let rect = container s;
             availW = rect_width rect * (Fin 1 - sliderPos s);
             availH = rect_height rect;
             k = scaleFit availW availH img
         in s\<lparr>refTransform := \<lparr>tr_x = Fin 0, tr_y = Fin 0, tr_k = k\<rparr>\<rparr>))"

text \<open>
  \<^verbatim>\<open>handleResize\<close> (lines 402-417): the window is resized to the rectangle \<open>rect\<close>, and the
  scale of each pane that has an image is fitted again.
\<close>

definition handleResize :: "dom_rect \<Rightarrow> app \<Rightarrow> app" where
  "handleResize rect s =
    (let s1 = s\<lparr>container := rect\<rparr>;
         s2 = (case image_st s1 of
                 None \<Rightarrow> s1
               | Some img \<Rightarrow>
                  (let availW = (if isComparing s1 then rect_width rect * sliderPos s1
                                 else rect_width rect);
                       k = scaleFit availW (rect_height rect) img
                   in s1\<lparr>transform := \<lparr>tr_x = Fin 0, tr_y = Fin 0, tr_k = k\<rparr>\<rparr>))
     in case referenceImage s2 of
          None \<Rightarrow> s2
        | Some img \<Rightarrow>
           (let availW = rect_width rect * (Fin 1 - sliderPos s2);
                availH = rect_height rect;
                k = scaleFit availW availH img
            in s2\<lparr>refTransform := \<lparr>tr_x = Fin 0, tr_y = Fin 0, tr_k = k\<rparr>\<rparr>))"

text \<open>
  The pane under an event: the reference pane when, in comparison mode, the event's
  fraction of the container's width is beyond the slider (lines 464-465, 470-476,
  652-653 and 875-876).
\<close>

definition xPct :: "dom_event \<Rightarrow> app \<Rightarrow> jsnum" where
  "xPct e s = (clientX e - rect_left (container s)) / rect_width (container s)"

definition sideAt :: "dom_event \<Rightarrow> app \<Rightarrow> side" where
  "sideAt e s = (if isComparing s \<and> xPct e s > sliderPos s then Right else Left)"

text \<open>\<^verbatim>\<open>handleWheel\<close> (lines 649-656).\<close>

definition wheelFactor :: "dom_event \<Rightarrow> jsnum" where
  "wheelFactor e = (if deltaY e < Fin 0 then Fin 1.1 else Fin 0.9)"

definition handleWheel :: "dom_event \<Rightarrow> app \<Rightarrow> app" where
  "handleWheel e s =
    (let t = pane_transform (sideAt e s) s
     in set_pane_transform (sideAt e s)
          (t\<lparr>tr_k := Math_max (Fin 0.1) (Math_min (tr_k t * wheelFactor e) (Fin 10))\<rparr>) s)"

text \<open>The double click on the canvas (lines 873-881) recenters the pane under it.\<close>

definition handleDoubleClick :: "dom_event \<Rightarrow> app \<Rightarrow> app" where
  "handleDoubleClick e s =
    (if sideAt e s = Right then recenterReferenceImage s else recenterImage s)"

section \<open>Gesture dispatcher\<close>

text \<open>\<^verbatim>\<open>getDist\<close> and \<^verbatim>\<open>getCenter\<close> (lines 453-454).\<close>

definition getDist :: "dom_event \<Rightarrow> dom_event \<Rightarrow> jsnum" where
  "getDist p1 p2 = Math_hypot (clientX p1 - clientX p2) (clientY p1 - clientY p2)"

definition getCenter :: "dom_event \<Rightarrow> dom_event \<Rightarrow> point" where
  "getCenter p1 p2 = ((clientX p1 + clientX p2) / Fin 2, (clientY p1 + clientY p2) / Fin 2)"

text \<open>The transform of the active pane: \<^verbatim>\<open>t\<close> of lines 518, 537 and 553.\<close>

definition active_transform :: "app \<Rightarrow> transform" where
  "active_transform s = pane_transform (activeSide s) s"

definition set_active_transform :: "transform \<Rightarrow> app \<Rightarrow> app" where
  "set_active_transform t s = set_pane_transform (activeSide s) t s"

text \<open>\<^verbatim>\<open>t.x += dx / t.k; t.y += dy / t.k\<close> (lines 519-520, 542-543, 554-555).\<close>

definition pan_by :: "jsnum \<Rightarrow> jsnum \<Rightarrow> transform \<Rightarrow> transform" where
  "pan_by dx dy t = t\<lparr>tr_x := tr_x t + dx / tr_k t, tr_y := tr_y t + dy / tr_k t\<rparr>"

text \<open>The start of a stroke by a single pointer with a drawing tool (lines 492-506).\<close>

definition beginStroke :: "side \<Rightarrow> dom_event \<Rightarrow> app \<Rightarrow> app" where
  "beginStroke sd e s =
    (let targetImg = (if sd = Left then image_st s else referenceImage s);
         wp = toWorld sd s (clientX e) (clientY e);
         start = (\<lambda>p. let newPath = \<lparr>points = [p], color = cur_color s, size_p = cur_size s,
                                      isEraser = (tool s = Eraser)\<rparr>
                       in if sd = Left then s\<lparr>currentPath := Some newPath\<rparr>
                          else s\<lparr>currentRefPath := Some newPath\<rparr>)
     in if tool s = Magnet \<and> targetImg \<noteq> None then
          (case snapToEdge (fst wp) (snd wp) targetImg None of
             Inl err \<Rightarrow> s\<lparr>failed := failed s @ [err]\<rparr>
           | Inr snapped \<Rightarrow>
               start (fst wp * Fin 0.3 + fst snapped * Fin 0.7,
                      snd wp * Fin 0.3 + snd snapped * Fin 0.7))
        else start wp)"

text \<open>\<^verbatim>\<open>handlePointerDown\<close> (lines 456-510).\<close>

definition handlePointerDown :: "dom_event \<Rightarrow> app \<Rightarrow> app" where
  "handlePointerDown e s =
    (if button e = 1 then
       s\<lparr>isMiddleMousePanning := True,
         middleMouseLastPos := Some (clientX e, clientY e),
         activeSide := sideAt e s\<rparr>
     else if isComparing s \<and> Math_abs (xPct e s - sliderPos s) < Fin 0.05 then s
     else
       (let sd = sideAt e s;
            s1 = s\<lparr>activeSide := sd, pointers := map_set (pointers s) (pointerId e) e\<rparr>
        in case map snd (pointers s1) of
             [p1, p2] \<Rightarrow>
               s1\<lparr>currentPath := None, currentRefPath := None,
                  gestureState := (gestureState s1)
                    \<lparr>lastDist := getDist p1 p2, lastCenter := Some (getCenter p1 p2)\<rparr>\<rparr>
           | [p] \<Rightarrow>
               if tool s1 = Hand then
                 s1\<lparr>gestureState := (gestureState s1)\<lparr>lastPos := Some (clientX e, clientY e)\<rparr>\<rparr>
               else beginStroke sd e s1
           | _ \<Rightarrow> s1))"

text \<open>The pinch of two pointers (lines 531-546).\<close>

definition pinchMove :: "dom_event \<Rightarrow> dom_event \<Rightarrow> app \<Rightarrow> app" where
  "pinchMove p1 p2 s =
    (let dist = getDist p1 p2;
         center = getCenter p1 p2;
         lastDist1 = js_or (lastDist (gestureState s)) dist;
         lastCenter1 = (case lastCenter (gestureState s) of Some c \<Rightarrow> c | None \<Rightarrow> center);
         zoom = dist / lastDist1;
         t = active_transform s;
         t1 = t\<lparr>tr_k := Math_max (Fin 0.1) (Math_min (tr_k t * zoom) (Fin 10))\<rparr>;
         dx = fst center - fst lastCenter1;
         dy = snd center - snd lastCenter1;
         s1 = set_active_transform (pan_by dx dy t1) s
     in s1\<lparr>gestureState := (gestureState s1)\<lparr>lastDist := dist, lastCenter := Some center\<rparr>\<rparr>)"

text \<open>The pan of a single pointer with the hand tool (lines 549-557).\<close>

definition panMove :: "dom_event \<Rightarrow> app \<Rightarrow> app" where
  "panMove e s =
    (let last1 = (case lastPos (gestureState s) of
                    Some l \<Rightarrow> l | None \<Rightarrow> (clientX e, clientY e));
         dx = clientX e - fst last1;
         dy = clientY e - snd last1;
         s1 = set_active_transform (pan_by dx dy (active_transform s)) s
     in s1\<lparr>gestureState := (gestureState s1)\<lparr>lastPos := Some (clientX e, clientY e)\<rparr>\<rparr>)"

text \<open>
  The magnet's blending of a move (lines 569-589): 20% raw and 80% snapped, then 70% of
  that and 30% of the last point, then a clamp of the drift from the raw point to 4.
\<close>

definition magnetBlend :: "point \<Rightarrow> point \<Rightarrow> point list \<Rightarrow> point" where
  "magnetBlend rawWp snapped pp =
    (let wp1 = (fst rawWp * Fin 0.2 + fst snapped * Fin 0.8,
                snd rawWp * Fin 0.2 + snd snapped * Fin 0.8);
         wp2 = (if length pp \<ge> 1
                then (fst wp1 * Fin 0.7 + fst (last pp) * Fin 0.3,
                      snd wp1 * Fin 0.7 + snd (last pp) * Fin 0.3)
                else wp1);
         driftX = fst wp2 - fst rawWp;
         driftY = snd wp2 - snd rawWp;
         driftDist = Math_hypot driftX driftY;
         maxDrift = Fin 4
     in if driftDist > maxDrift then
          (let sc = maxDrift / driftDist
           in (fst rawWp + driftX * sc, snd rawWp + driftY * sc))
        else wp2)"

text \<open>
  The extension of the in-progress stroke by a move of a single pointer with a drawing
  tool (lines 559-596). Reading the last point of a stroke without points is a
  \<^verbatim>\<open>TypeError\<close>.
\<close>

definition drawMove :: "dom_event \<Rightarrow> app \<Rightarrow> app" where
  "drawMove e s =
    (let sd = activeSide s;
         targetPath = (if sd = Left then currentPath s else currentRefPath s);
         targetImg = (if sd = Left then image_st s else referenceImage s)
     in case targetPath of
          None \<Rightarrow> s
        | Some tp \<Rightarrow>
           (let wp = toWorld sd s (clientX e) (clientY e);
                extend = (\<lambda>p. if points tp = [] then s\<lparr>failed := failed s @ [TypeError]\<rparr>
                   else
                     let pp = points tp;
                         dist = Math_hypot (fst p - fst (last pp)) (snd p - snd (last pp));
                         minDistance = (if tool s = Magnet then Fin 3 else Fin 1);
                         tp1 = (if dist > minDistance then tp\<lparr>points := pp @ [p]\<rparr> else tp)
                     in if sd = Left then s\<lparr>currentPath := Some tp1\<rparr>
                        else s\<lparr>currentRefPath := Some tp1\<rparr>)
            in if tool s = Magnet \<and> targetImg \<noteq> None then
                 (case snapToEdge (fst wp) (snd wp) targetImg (Some (points tp)) of
                    Inl err \<Rightarrow> s\<lparr>failed := failed s @ [err]\<rparr>
                  | Inr snapped \<Rightarrow> extend (magnetBlend wp snapped (points tp)))
               else extend wp))"

text \<open>
  \<^verbatim>\<open>handlePointerMove\<close> (lines 512-600). While the middle button pans, the last
  position is always set; reading it when it is \<^verbatim>\<open>null\<close> is a \<^verbatim>\<open>TypeError\<close>.
\<close>

definition handlePointerMove :: "dom_event \<Rightarrow> app \<Rightarrow> app" where
  "handlePointerMove e s =
    (if isMiddleMousePanning s then
       (case middleMouseLastPos s of
          None \<Rightarrow> s\<lparr>failed := failed s @ [TypeError]\<rparr>
        | Some last1 \<Rightarrow>
           (let dx = clientX e - fst last1;
                dy = clientY e - snd last1;
                s1 = set_active_transform (pan_by dx dy (active_transform s)) s
            in s1\<lparr>middleMouseLastPos := Some (clientX e, clientY e)\<rparr>))
     else if \<not> map_has (pointers s) (pointerId e) then s
     else
       (let s1 = s\<lparr>pointers := map_set (pointers s) (pointerId e) e\<rparr>
        in case map snd (pointers s1) of
             [p1, p2] \<Rightarrow> pinchMove p1 p2 s1
           | [p] \<Rightarrow> if tool s1 = Hand then panMove e s1 else drawMove e s1
           | _ \<Rightarrow> s1))"

text \<open>
  The canvas binds the handlers to its pointer events (lines 868-872): a cancelled
  pointer and a pointer that leaves the canvas are handled as a pointer-up. Events are
  handled one after the other.
\<close>

datatype pointer_input =
  PointerDown dom_event
  | PointerMove dom_event
  | PointerUp dom_event
  | PointerCancel dom_event
  | PointerLeave dom_event

fun onPointer :: "pointer_input \<Rightarrow> app \<Rightarrow> app" where
  "onPointer (PointerDown e) s = handlePointerDown e s"
| "onPointer (PointerMove e) s = handlePointerMove e s"
| "onPointer (PointerUp e) s = handlePointerUp e s"
| "onPointer (PointerCancel e) s = handlePointerUp e s"
| "onPointer (PointerLeave e) s = handlePointerUp e s"

definition onPointers :: "pointer_input list \<Rightarrow> app \<Rightarrow> app" where
  "onPointers evs s = fold onPointer evs s"

section \<open>Notions used in the statements\<close>

text \<open>
  The zoom bounds of the wheel and pinch handlers; a view whose rectangle, slider and
  transforms are finite numbers with a nonzero scale; and the situation of a pointer
  move that the handler treats as a pinch: no middle-button pan, the moved pointer is
  tracked, and exactly two pointers are tracked after its update (lines 517-530).
\<close>

definition within_bounds :: "jsnum \<Rightarrow> bool" where
  "within_bounds k = (Fin 0.1 \<le> k \<and> k \<le> Fin 10)"

definition finite_rect :: "dom_rect \<Rightarrow> bool" where
  "finite_rect r = (is_fin (rect_left r) \<and> is_fin (rect_top r) \<and> is_fin (rect_width r) \<and> is_fin (rect_height r))"

definition finite_transform :: "transform \<Rightarrow> bool" where
  "finite_transform t = (is_fin (tr_x t) \<and> is_fin (tr_y t) \<and> is_fin (tr_k t) \<and> tr_k t \<noteq> Fin 0)"

definition finite_view :: "app \<Rightarrow> bool" where
  "finite_view s = (finite_rect (container s) \<and> is_fin (sliderPos s)
      \<and> finite_transform (transform s) \<and> finite_transform (refTransform s))"

definition pinching :: "dom_event \<Rightarrow> app \<Rightarrow> dom_event \<Rightarrow> dom_event \<Rightarrow> bool" where
  "pinching e s p1 p2 =
     (\<not> isMiddleMousePanning s \<and> map_has (pointers s) (pointerId e)
      \<and> map snd (map_set (pointers s) (pointerId e) e) = [p1, p2])"

text \<open>
  The ink model of both panes (stroke lists, history stacks and redo stacks); a state
  is quiet when no pane has an in-progress stroke; a pointer-down is registered when it
  is not a press of the middle button and, in comparison mode, not within 0.05 of the
  divider (lines 458 and 474).
\<close>

definition ink :: "app \<Rightarrow> ink_path list \<times> ink_path list list \<times> ink_path list list
    \<times> ink_path list \<times> ink_path list list \<times> ink_path list list" where
  "ink s = (paths s, history s, redoStack s, refPaths s, refHistory s, refRedoStack s)"

definition quiet :: "app \<Rightarrow> bool" where
  "quiet s = (currentPath s = None \<and> currentRefPath s = None)"

definition registers :: "dom_event \<Rightarrow> app \<Rightarrow> bool" where
  "registers e s =
     (button e \<noteq> 1 \<and> \<not> (isComparing s \<and> Math_abs (xPct e s - sliderPos s) < Fin 0.05))"

fun is_down :: "pointer_input \<Rightarrow> bool" where
  "is_down (PointerDown e) = True"
| "is_down ev = False"

text \<open>
  On a finite cursor position the analyzer works on integers: the pixel under the
  cursor (\<^verbatim>\<open>Math.round\<close> is the floor of the value plus one half) and the bounds of the
  neighbourhood in each dimension.
\<close>

definition pixel_of :: "nat \<Rightarrow> real \<Rightarrow> int" where
  "pixel_of n v = \<lfloor>v + real n / 2 + 1 / 2\<rfloor>"

definition win_start :: "nat \<Rightarrow> real \<Rightarrow> int" where
  "win_start n v = max 1 (pixel_of n v - 8)"

definition win_end :: "nat \<Rightarrow> real \<Rightarrow> int" where
  "win_end n v = min (int n - 1) (pixel_of n v + 8)"

text \<open>
  The luminance and the alpha of a pixel as \<^verbatim>\<open>lum\<close> and the alpha reads compute them, and
  the fact that a scan context holds the pixels of a rectangle of the image.
\<close>

definition pixel_lum :: "rgba \<Rightarrow> jsnum" where
  "pixel_lum p =
    (case p of (r, g, b, a) \<Rightarrow>
      (Fin (real (unat r)) * Fin 0.299 + Fin (real (unat g)) * Fin 0.587
        + Fin (real (unat b)) * Fin 0.114) * (Fin (real (unat a)) / Fin 255))"

definition pixel_alpha :: "rgba \<Rightarrow> jsnum" where
  "pixel_alpha p = (case p of (r, g, b, a) \<Rightarrow> Fin (real (unat a)))"

definition reads_block :: "scan_ctx \<Rightarrow> image \<Rightarrow> int \<Rightarrow> int \<Rightarrow> nat \<Rightarrow> nat \<Rightarrow> bool" where
  "reads_block c img x0 y0 sw sh =
     (data c = image_bytes img x0 y0 sw sh \<and> padStartX c = Fin (of_int x0)
      \<and> padStartY c = Fin (of_int y0) \<and> padW c = Fin (real sw))"

section \<open>Initial state and example values\<close>

text \<open>
  The state at mount (lines 55-95): no image, the pen, the identity transforms, empty
  stroke lists and stacks. The container rectangle is the environment's.
\<close>

definition init_app :: "dom_rect \<Rightarrow> app" where
  "init_app rect =
    \<lparr>image_st = None, referenceImage = None, tool = Pen, cur_color = ''#FF4444'',
     cur_size = Fin 12, version = 0, isComparing = False, sliderPos = Fin 0.5,
     paths = [], history = [],
     transform = \<lparr>tr_x = Fin 0, tr_y = Fin 0, tr_k = Fin 1\<rparr>,
     currentPath = None, pointers = [], activeSide = Left,
     gestureState = \<lparr>lastDist = Fin 0, lastCenter = None, lastPos = None\<rparr>,
     isMiddleMousePanning = False, middleMouseLastPos = None,
     redoStack = [], refRedoStack = [], refPaths = [], refHistory = [],
     refTransform = \<lparr>tr_x = Fin 0, tr_y = Fin 0, tr_k = Fin 1\<rparr>,
     currentRefPath = None, container = rect, failed = []\<rparr>"

text \<open>
  Values used by the examples: a window of 1000 by 800, a pointer event, a wheel event,
  a stroke and a uniformly gray image.
\<close>

definition window_rect :: dom_rect where
  "window_rect = \<lparr>rect_left = Fin 0, rect_top = Fin 0, rect_width = Fin 1000, rect_height = Fin 800\<rparr>"

definition pointer_at :: "int \<Rightarrow> real \<Rightarrow> real \<Rightarrow> dom_event" where
  "pointer_at i cx cy =
    \<lparr>pointerId = i, clientX = Fin cx, clientY = Fin cy, button = 0, deltaY = Fin 0\<rparr>"

definition wheel_at :: "real \<Rightarrow> real \<Rightarrow> real \<Rightarrow> dom_event" where
  "wheel_at cx cy dy =
    \<lparr>pointerId = 0, clientX = Fin cx, clientY = Fin cy, button = 0, deltaY = Fin dy\<rparr>"

definition red_stroke :: ink_path where
  "red_stroke =
    \<lparr>points = [(Fin 0, Fin 0), (Fin 5, Fin 0), (Fin 5, Fin 5)], color = ''#FF4444'',
     size_p = Fin 12, isEraser = False\<rparr>"

definition gray_image :: "nat \<Rightarrow> nat \<Rightarrow> image" where
  "gray_image w h = \<lparr>img_width = w, img_height = h, img_pixel = (\<lambda>x y. (128, 128, 128, 255))\<rparr>"

text \<open>
  An opaque black image of 5 by 5 pixels with one gray pixel of value \<open>v\<close> at \<open>(4, 2)\<close>.
\<close>

definition spot_image :: "8 word \<Rightarrow> image" where
  "spot_image v =
    \<lparr>img_width = 5, img_height = 5,
     img_pixel = (\<lambda>x y. if x = 4 \<and> y = 2 then (v, v, v, 255) else (0, 0, 0, 255))\<rparr>"

text \<open>
  Comparison mode: a gray reference image of 100 by 100 is loaded into the initial
  state; the window is 1000 by 800 and the slider at 0.5.
\<close>

definition comparing :: app where
  "comparing = handleReferenceFile (gray_image 100 100) (init_app window_rect)"

text \<open>
  A stroke is drawn with the pen at \<open>(10, 10)\<close> and undone; then a second stroke is begun
  at \<open>(20, 20)\<close>.
\<close>

definition drawn_and_undone :: app where
  "drawn_and_undone =
     handleUndo (handlePointerUp (pointer_at 1 10 10)
       (handlePointerDown (pointer_at 1 10 10) (init_app window_rect)))"

definition drawing_again :: app where
  "drawing_again = handlePointerDown (pointer_at 1 20 20) drawn_and_undone"

text \<open>
  A 100 by 100 image is loaded (fit scale 7.2) and the pen goes down at the centre of
  the window, moves 36 pixels right and then 36 pixels down: the in-progress stroke
  has three points. In comparison mode the pen goes down in the reference pane.
\<close>

definition three_point_stroke :: app where
  "three_point_stroke =
     onPointers [PointerDown (pointer_at 1 500 400), PointerMove (pointer_at 1 536 400),
                 PointerMove (pointer_at 1 536 436)]
       (handleFile (gray_image 100 100) (init_app window_rect))"

definition reference_stroke :: app where
  "reference_stroke = handlePointerDown (pointer_at 1 900 400) comparing"

definition reference_drawn_and_undone :: app where
  "reference_drawn_and_undone =
     handleRefUndo (handlePointerUp (pointer_at 1 900 400) reference_stroke)"

text \<open>Two pointers go down 200 pixels apart.\<close>

definition pinch_start :: app where
  "pinch_start =
     handlePointerDown (pointer_at 2 800 400)
       (handlePointerDown (pointer_at 1 600 400) (init_app window_rect))"

text \<open>A 10 by 10 image loaded into the 1000 by 800 window.\<close>

definition tiny_image_loaded :: app where
  "tiny_image_loaded = handleFile (gray_image 10 10) (init_app window_rect)"

text \<open>
  Two pointers go down at the same position \<open>(100, 100)\<close> and one of them reports a move
  without leaving it; and two pointers go down 200 apart and one moves onto the other.
\<close>

definition coincident_pinch :: app where
  "coincident_pinch =
     handlePointerMove (pointer_at 2 100 100)
       (handlePointerDown (pointer_at 2 100 100)
         (handlePointerDown (pointer_at 1 100 100) (init_app window_rect)))"

definition closing_pinch :: app where
  "closing_pinch =
     handlePointerMove (pointer_at 2 100 100)
       (handlePointerDown (pointer_at 2 300 100)
         (handlePointerDown (pointer_at 1 100 100) (init_app window_rect)))"

section \<open>Facts about the numbers\<close>

lemma fin_plus [simp]: "Fin a + Fin b = Fin (a + b)"
  by (simp add: plus_jsnum_def)

lemma fin_minus [simp]: "Fin a - Fin b = Fin (a - b)"
  by (simp add: minus_jsnum_def)

lemma fin_uminus [simp]: "- Fin a = Fin (- a)"
  by (simp add: uminus_jsnum_def)

lemma fin_times [simp]: "Fin a * Fin b = Fin (a * b)"
  by (simp add: times_jsnum_def)

lemma fin_divide [simp]:
  "Fin a / Fin b = (if b = 0 then (if a = 0 then NaN else js_inf a) else Fin (a / b))"
  by (simp add: divide_jsnum_def)

lemma fin_less [simp]: "Fin a < Fin b \<longleftrightarrow> a < b"
  by (simp add: less_jsnum_def)

lemma fin_le [simp]: "Fin a \<le> Fin b \<longleftrightarrow> a \<le> b"
  by (auto simp add: less_eq_jsnum_def)

lemma nan_arith [simp]:
  "NaN + a = NaN" "a + NaN = NaN" "NaN - a = NaN" "a - NaN = NaN"
  "NaN * a = NaN" "a * NaN = NaN" "NaN / a = NaN" "a / NaN = NaN"
  by (cases a; simp add: plus_jsnum_def minus_jsnum_def times_jsnum_def divide_jsnum_def)+

lemma nan_compare [simp]:
  "\<not> NaN < a" "\<not> a < NaN" "\<not> NaN \<le> a" "\<not> a \<le> NaN"
  by (cases a; simp add: less_jsnum_def less_eq_jsnum_def)+

lemma Math_max_fin [simp]: "Math_max (Fin a) (Fin b) = Fin (max a b)"
  by (simp add: Math_max_def max_def)

lemma Math_min_fin [simp]: "Math_min (Fin a) (Fin b) = Fin (min a b)"
  by (simp add: Math_min_def min_def)

lemma Math_minmax_nan [simp]:
  "Math_max NaN a = NaN" "Math_max a NaN = NaN" "Math_min NaN a = NaN" "Math_min a NaN = NaN"
  by (simp_all add: Math_max_def Math_min_def)

lemma inf_compare [simp]:
  "\<not> PInf \<le> Fin r" "\<not> Fin r \<le> NInf" "\<not> PInf < Fin r" "\<not> Fin r < NInf"
  "Fin r < PInf" "NInf < Fin r" "Fin r \<le> PInf" "NInf \<le> Fin r"
  "\<not> PInf < a" "\<not> a < NInf" "NInf < PInf" "NInf \<le> PInf" "\<not> PInf \<le> NInf"
  by (cases a; simp add: less_jsnum_def less_eq_jsnum_def)+

lemma is_fin_iff: "is_fin a \<longleftrightarrow> (\<exists>r. a = Fin r)"
  by (cases a) simp_all

lemma times_fin_not_nan: "a \<noteq> NaN \<Longrightarrow> r \<noteq> 0 \<Longrightarrow> a * Fin r \<noteq> NaN"
  by (cases a) (simp_all add: times_jsnum_def js_inf_def sgn_if)

lemma hypot_nonneg: "0 \<le> hypot a b"
  by (simp add: hypot_def)

lemma hypot_eq_0_iff: "hypot a b = 0 \<longleftrightarrow> a = 0 \<and> b = 0"
  by (simp add: hypot_def)

lemma hypot_axis [simp]: "hypot a 0 = \<bar>a\<bar>" "hypot 0 b = \<bar>b\<bar>"
  by (simp_all add: hypot_def)

section \<open>Undo and redo\<close>

text \<open>What a committing pointer-up does to each field of the history model.\<close>

lemma handlePointerUp_paths:
  "\<not> (isMiddleMousePanning s \<and> button e = 1) \<Longrightarrow>
     paths (handlePointerUp e s) = (case currentPath s of None \<Rightarrow> paths s | Some p \<Rightarrow> paths s @ [p])"
  unfolding handlePointerUp_def Let_def
  by (subst if_not_P, assumption) (simp split: option.split list.split prod.split)

lemma handlePointerUp_history:
  "\<not> (isMiddleMousePanning s \<and> button e = 1) \<Longrightarrow>
     history (handlePointerUp e s) = (case currentPath s of None \<Rightarrow> history s | Some p \<Rightarrow> history s @ [paths s])"
  unfolding handlePointerUp_def Let_def
  by (subst if_not_P, assumption) (simp split: option.split list.split prod.split)

lemma handlePointerUp_redo:
  "\<not> (isMiddleMousePanning s \<and> button e = 1) \<Longrightarrow>
     redoStack (handlePointerUp e s) = (case currentPath s of None \<Rightarrow> redoStack s | Some p \<Rightarrow> [])"
  unfolding handlePointerUp_def Let_def
  by (subst if_not_P, assumption) (simp split: option.split list.split prod.split)

lemma handlePointerUp_refPaths:
  "\<not> (isMiddleMousePanning s \<and> button e = 1) \<Longrightarrow>
     refPaths (handlePointerUp e s) = (case currentRefPath s of None \<Rightarrow> refPaths s | Some p \<Rightarrow> refPaths s @ [p])"
  unfolding handlePointerUp_def Let_def
  by (subst if_not_P, assumption) (simp split: option.split list.split prod.split)

lemma handlePointerUp_refHistory:
  "\<not> (isMiddleMousePanning s \<and> button e = 1) \<Longrightarrow>
     refHistory (handlePointerUp e s) = (case currentRefPath s of None \<Rightarrow> refHistory s | Some p \<Rightarrow> refHistory s @ [refPaths s])"
  unfolding handlePointerUp_def Let_def
  by (subst if_not_P, assumption) (simp split: option.split list.split prod.split)

lemma handlePointerUp_refRedo:
  "\<not> (isMiddleMousePanning s \<and> button e = 1) \<Longrightarrow>
     refRedoStack (handlePointerUp e s) = (case currentRefPath s of None \<Rightarrow> refRedoStack s | Some p \<Rightarrow> [])"
  unfolding handlePointerUp_def Let_def
  by (subst if_not_P, assumption) (simp split: option.split list.split prod.split)

lemma handlePointerUp_current:
  "\<not> (isMiddleMousePanning s \<and> button e = 1) \<Longrightarrow>
     currentPath (handlePointerUp e s) = None \<and> currentRefPath (handlePointerUp e s) = None"
  unfolding handlePointerUp_def Let_def
  by (subst if_not_P, assumption)+ (simp split: option.split list.split prod.split)

lemma handlePointerUp_middle:
  "isMiddleMousePanning s \<and> button e = 1 \<Longrightarrow>
     handlePointerUp e s = s\<lparr>isMiddleMousePanning := False, middleMouseLastPos := None\<rparr>"
  by (simp add: handlePointerUp_def)

text \<open>The example states, evaluated.\<close>

lemmas pen_stroke_defs = handlePointerDown_def init_app_def window_rect_def pointer_at_def
  xPct_def sideAt_def beginStroke_def toWorld_def toWorkspaceWorld_def handlePointerUp_def
  handleUndo_def map_delete_def

lemma drawn_and_undone_redoStack:
  "redoStack drawn_and_undone =
     [[\<lparr>points = [(Fin (- 490), Fin (- 390))], color = ''#FF4444'', size_p = Fin 12,
        isEraser = False\<rparr>]]"
  by (simp add: drawn_and_undone_def pen_stroke_defs)

lemma drawing_again_currentPath:
  "currentPath drawing_again =
     Some \<lparr>points = [(Fin (- 480), Fin (- 380))], color = ''#FF4444'', size_p = Fin 12,
        isEraser = False\<rparr> \<and> \<not> isMiddleMousePanning drawing_again
    \<and> redoStack drawing_again = redoStack drawn_and_undone"
  by (simp add: drawing_again_def drawn_and_undone_def pen_stroke_defs)

lemma three_point_stroke_eval:
  "currentPath three_point_stroke = Some red_stroke \<and> currentRefPath three_point_stroke = None
   \<and> paths three_point_stroke = [] \<and> history three_point_stroke = []
   \<and> tr_k (transform three_point_stroke) = Fin 7.2
   \<and> \<not> isMiddleMousePanning three_point_stroke"
  by (simp add: three_point_stroke_def onPointers_def handleFile_def scaleFit_def gray_image_def
      handlePointerMove_def drawMove_def map_has_def red_stroke_def pen_stroke_defs Let_def hypot_def)

lemma reference_stroke_eval:
  "currentRefPath reference_stroke =
      Some \<lparr>points = [(Fin (100 / 3), Fin 0)], color = ''#FF4444'', size_p = Fin 12,
        isEraser = False\<rparr>
   \<and> currentPath reference_stroke = None \<and> refPaths reference_stroke = []
   \<and> \<not> isMiddleMousePanning reference_stroke"
  by (simp add: reference_stroke_def comparing_def handleReferenceFile_def scaleFit_def gray_image_def
      toReferenceWorld_def pen_stroke_defs Let_def)

lemma reference_drawn_and_undone_redo:
  "refRedoStack reference_drawn_and_undone =
     [[\<lparr>points = [(Fin (100 / 3), Fin 0)], color = ''#FF4444'', size_p = Fin 12,
        isEraser = False\<rparr>]]"
proof -
  have b: "\<not> (isMiddleMousePanning reference_stroke \<and> button (pointer_at 1 900 400) = 1)"
    using reference_stroke_eval by simp
  show ?thesis
    using handlePointerUp_refPaths [OF b] handlePointerUp_refHistory [OF b]
      handlePointerUp_refRedo [OF b] reference_stroke_eval
    by (simp add: reference_drawn_and_undone_def handleRefUndo_def)
qed

text \<open>
  C1. A pointer-up that commits is one that is not the release of the panning middle
  button; it commits the in-progress stroke of each pane that has one. For the
  workspace pane and for the reference pane, from any state: after the commit, undo
  gives back the stroke list (and the history stack) of before the commit, and undo
  followed by redo gives back the stroke list, the history stack and the empty redo
  stack of after the commit.
\<close>

theorem commit_undo_redo_inverse:
  assumes "\<not> (isMiddleMousePanning s \<and> button e = 1)"
  shows "(currentPath s \<noteq> None \<longrightarrow>
            paths (handleUndo (handlePointerUp e s)) = paths s
          \<and> history (handleUndo (handlePointerUp e s)) = history s
          \<and> paths (handleRedo (handleUndo (handlePointerUp e s))) = paths (handlePointerUp e s)
          \<and> history (handleRedo (handleUndo (handlePointerUp e s))) = history (handlePointerUp e s)
          \<and> redoStack (handleRedo (handleUndo (handlePointerUp e s))) = redoStack (handlePointerUp e s))
       \<and> (currentRefPath s \<noteq> None \<longrightarrow>
            refPaths (handleRefUndo (handlePointerUp e s)) = refPaths s
          \<and> refHistory (handleRefUndo (handlePointerUp e s)) = refHistory s
          \<and> refPaths (handleRefRedo (handleRefUndo (handlePointerUp e s))) = refPaths (handlePointerUp e s)
          \<and> refHistory (handleRefRedo (handleRefUndo (handlePointerUp e s))) = refHistory (handlePointerUp e s)
          \<and> refRedoStack (handleRefRedo (handleRefUndo (handlePointerUp e s))) = refRedoStack (handlePointerUp e s))"
proof -
  let ?s = "handlePointerUp e s"
  note up = handlePointerUp_paths [OF assms] handlePointerUp_history [OF assms] handlePointerUp_redo [OF assms]
    handlePointerUp_refPaths [OF assms] handlePointerUp_refHistory [OF assms] handlePointerUp_refRedo [OF assms]
  have left: "paths (handleUndo ?s) = paths s \<and> history (handleUndo ?s) = history s
      \<and> paths (handleRedo (handleUndo ?s)) = paths ?s
      \<and> history (handleRedo (handleUndo ?s)) = history ?s
      \<and> redoStack (handleRedo (handleUndo ?s)) = redoStack ?s"
    if "currentPath s \<noteq> None"
    using that up by (auto simp add: handleUndo_def handleRedo_def)
  have right: "refPaths (handleRefUndo ?s) = refPaths s \<and> refHistory (handleRefUndo ?s) = refHistory s
      \<and> refPaths (handleRefRedo (handleRefUndo ?s)) = refPaths ?s
      \<and> refHistory (handleRefRedo (handleRefUndo ?s)) = refHistory ?s
      \<and> refRedoStack (handleRefRedo (handleRefUndo ?s)) = refRedoStack ?s"
    if "currentRefPath s \<noteq> None"
    using that up by (auto simp add: handleRefUndo_def handleRefRedo_def)
  from left right show ?thesis by blast
qed

theorem commit_undo_redo_inverse_witness:
  "currentPath three_point_stroke = Some red_stroke
   \<and> paths (handlePointerUp (pointer_at 1 536 436) three_point_stroke) = [red_stroke]
   \<and> paths (handleUndo (handlePointerUp (pointer_at 1 536 436) three_point_stroke)) = []
   \<and> paths (handleRedo (handleUndo (handlePointerUp (pointer_at 1 536 436) three_point_stroke)))
       = [red_stroke]
   \<and> currentRefPath reference_stroke \<noteq> None
   \<and> refPaths (handleRefUndo (handlePointerUp (pointer_at 1 900 400) reference_stroke)) = []
   \<and> refPaths (handleRefRedo (handleRefUndo (handlePointerUp (pointer_at 1 900 400) reference_stroke)))
       = refPaths (handlePointerUp (pointer_at 1 900 400) reference_stroke)
   \<and> length (refPaths (handlePointerUp (pointer_at 1 900 400) reference_stroke)) = 1"
proof -
  have a: "\<not> (isMiddleMousePanning three_point_stroke \<and> button (pointer_at 1 536 436) = 1)"
    using three_point_stroke_eval by simp
  have b: "\<not> (isMiddleMousePanning reference_stroke \<and> button (pointer_at 1 900 400) = 1)"
    using reference_stroke_eval by simp
  show ?thesis
    using commit_undo_redo_inverse [OF a] commit_undo_redo_inverse [OF b]
      handlePointerUp_paths [OF a] handlePointerUp_refPaths [OF b]
      three_point_stroke_eval reference_stroke_eval
    by simp
qed

text \<open>
  C3. From any state, a committing pointer-up empties the redo stack of each pane that
  had an in-progress stroke, and a redo right after it changes nothing at all in the
  state. The state before the commit is arbitrary, so it covers the one reached by
  commit, undo and the start of a new stroke; the example below runs that sequence.
\<close>

theorem commit_clears_redo:
  assumes "\<not> (isMiddleMousePanning s \<and> button e = 1)"
  shows "(currentPath s \<noteq> None \<longrightarrow>
            redoStack (handlePointerUp e s) = []
          \<and> handleRedo (handlePointerUp e s) = handlePointerUp e s)
       \<and> (currentRefPath s \<noteq> None \<longrightarrow>
            refRedoStack (handlePointerUp e s) = []
          \<and> handleRefRedo (handlePointerUp e s) = handlePointerUp e s)"
  using handlePointerUp_redo [OF assms] handlePointerUp_refRedo [OF assms]
  by (auto simp add: handleRedo_def handleRefRedo_def split: option.splits)

theorem commit_clears_redo_witness:
  "redoStack drawn_and_undone \<noteq> []
   \<and> redoStack (handlePointerUp (pointer_at 1 20 20) drawing_again) = []
   \<and> handleRedo (handlePointerUp (pointer_at 1 20 20) drawing_again)
       = handlePointerUp (pointer_at 1 20 20) drawing_again"
proof -
  have a: "\<not> (isMiddleMousePanning drawing_again \<and> button (pointer_at 1 20 20) = 1)"
    using drawing_again_currentPath by simp
  show ?thesis
    using commit_clears_redo [OF a] drawing_again_currentPath drawn_and_undone_redoStack
    by simp
qed

section \<open>Zoom\<close>

lemma clamp_cases:
  "Math_max (Fin 0.1) (Math_min v (Fin 10)) =
     (case v of Fin r \<Rightarrow> Fin (max 0.1 (min r 10)) | PInf \<Rightarrow> Fin 10 | NInf \<Rightarrow> Fin 0.1 | NaN \<Rightarrow> NaN)"
  by (cases v) (simp_all add: Math_max_def Math_min_def less_jsnum_def)

lemma clamp_within_bounds:
  "v \<noteq> NaN \<Longrightarrow> within_bounds (Math_max (Fin 0.1) (Math_min v (Fin 10)))"
  by (cases v) (simp_all add: clamp_cases within_bounds_def)

lemma pane_transform_set [simp]:
  "pane_transform sd (set_pane_transform sd t s) = t"
  by (simp add: pane_transform_def set_pane_transform_def)

lemma pane_transform_set_other:
  "sd' \<noteq> sd \<Longrightarrow> pane_transform sd' (set_pane_transform sd t s) = pane_transform sd' s"
  by (cases sd; cases sd'; simp add: pane_transform_def set_pane_transform_def)

lemma set_pane_transform_view [simp]:
  "container (set_pane_transform sd t s) = container s"
  "sliderPos (set_pane_transform sd t s) = sliderPos s"
  "isComparing (set_pane_transform sd t s) = isComparing s"
  by (simp_all add: set_pane_transform_def)

lemma sideAt_set_pane_transform [simp]:
  "sideAt e (set_pane_transform sd t s) = sideAt e s"
  by (simp add: sideAt_def xPct_def)

lemma sideAt_handleWheel [simp]: "sideAt e' (handleWheel e s) = sideAt e' s"
  by (simp add: handleWheel_def Let_def)

lemma handleWheel_transform:
  "pane_transform (sideAt e s) (handleWheel e s) =
     (pane_transform (sideAt e s) s)
       \<lparr>tr_k := Math_max (Fin 0.1)
           (Math_min (tr_k (pane_transform (sideAt e s) s) * wheelFactor e) (Fin 10))\<rparr>"
  by (simp add: handleWheel_def Let_def)

lemma handleWheel_other:
  "sd \<noteq> sideAt e s \<Longrightarrow> pane_transform sd (handleWheel e s) = pane_transform sd s"
  by (simp add: handleWheel_def Let_def pane_transform_set_other)

lemma handleWheel_within_bounds:
  assumes "tr_k (pane_transform (sideAt e s) s) \<noteq> NaN"
  shows "within_bounds (tr_k (pane_transform (sideAt e s) (handleWheel e s)))"
proof -
  have "tr_k (pane_transform (sideAt e s) s) * wheelFactor e \<noteq> NaN"
    using assms by (simp add: wheelFactor_def times_fin_not_nan)
  then show ?thesis
    by (simp add: handleWheel_transform clamp_within_bounds)
qed

lemma wheel_in_step:
  assumes "deltaY e < Fin 0" and "tr_k (pane_transform (sideAt e s) s) = Fin k"
  shows "tr_k (pane_transform (sideAt e s) (handleWheel e s)) = Fin (max 0.1 (min (k * 1.1) 10))"
  using assms by (simp add: handleWheel_transform wheelFactor_def)

lemma wheel_in_iter:
  assumes "deltaY e < Fin 0" and "tr_k (pane_transform (sideAt e s) s) = Fin k"
    and "0.1 \<le> k" and "k \<le> 10"
  shows "tr_k (pane_transform (sideAt e s) ((handleWheel e ^^ n) s)) = Fin (min (k * 1.1 ^ n) 10)
     \<and> sideAt e ((handleWheel e ^^ n) s) = sideAt e s"
proof (induction n)
  case 0
  then show ?case using assms by simp
next
  case (Suc n)
  let ?t = "(handleWheel e ^^ n) s"
  have side: "sideAt e ?t = sideAt e s" and k: "tr_k (pane_transform (sideAt e ?t) ?t) = Fin (min (k * 1.1 ^ n) 10)"
    using Suc.IH by simp_all
  have pos: "0.1 \<le> k * 1.1 ^ n"
  proof -
    have "(1::real) \<le> 1.1 ^ n" by (rule one_le_power) simp
    then have "k * 1 \<le> k * 1.1 ^ n" using assms(3) by (intro mult_left_mono) simp_all
    then show ?thesis using assms(3) by linarith
  qed
  have "tr_k (pane_transform (sideAt e ?t) (handleWheel e ?t))
          = Fin (max 0.1 (min (min (k * 1.1 ^ n) 10 * 1.1) 10))"
    by (rule wheel_in_step [OF assms(1) k])
  moreover have "max 0.1 (min (min (k * 1.1 ^ n) 10 * 1.1) 10) = min (k * 1.1 ^ Suc n) 10"
    using pos by (simp add: min_def max_def)
  ultimately show ?case using side by simp
qed

lemma hundred_wheel_in:
  assumes "deltaY e < Fin 0" and "within_bounds (tr_k (pane_transform (sideAt e s) s))"
  shows "tr_k (pane_transform (sideAt e s) ((handleWheel e ^^ 100) s)) = Fin 10"
proof -
  from assms(2) obtain k where k: "tr_k (pane_transform (sideAt e s) s) = Fin k"
    by (cases "tr_k (pane_transform (sideAt e s) s)") (simp_all add: within_bounds_def)
  with assms(2) have b: "0.1 \<le> k" "k \<le> 10" by (simp_all add: within_bounds_def)
  have "(100::real) \<le> 1.1 ^ 100" by (simp add: power_divide)
  then have "0.1 * 100 \<le> k * 1.1 ^ 100" using b(1) by (intro mult_mono) simp_all
  then have "min (k * 1.1 ^ 100) 10 = 10" by simp
  then show ?thesis using wheel_in_iter [OF assms(1) k b, of 100] by simp
qed


lemma getDist_fin:
  assumes "clientX p1 = Fin x1" "clientY p1 = Fin y1" "clientX p2 = Fin x2" "clientY p2 = Fin y2"
  shows "getDist p1 p2 = Fin (hypot (x1 - x2) (y1 - y2))"
  using assms by (simp add: getDist_def)

lemma pinch_zoom_fin:
  assumes "d \<noteq> 0"
  shows "is_fin (Fin d / js_or l (Fin d))"
  using assms by (cases l) (simp_all add: js_or_def divide_jsnum_def)

lemma pinchMove_k:
  "tr_k (active_transform (pinchMove p1 p2 s)) =
     Math_max (Fin 0.1)
       (Math_min (tr_k (active_transform s)
                    * (getDist p1 p2 / js_or (lastDist (gestureState s)) (getDist p1 p2)))
          (Fin 10))"
  by (simp add: pinchMove_def Let_def active_transform_def set_active_transform_def pan_by_def
      pane_transform_def set_pane_transform_def)

lemma pinchMove_within_bounds:
  assumes "is_fin (tr_k (active_transform s))"
    and "is_fin (getDist p1 p2)" and "getDist p1 p2 \<noteq> Fin 0"
  shows "within_bounds (tr_k (active_transform (pinchMove p1 p2 s)))"
proof -
  from assms(1) obtain k where k: "tr_k (active_transform s) = Fin k" by (auto simp: is_fin_iff)
  from assms(2,3) obtain d where d: "getDist p1 p2 = Fin d" "d \<noteq> 0" by (auto simp: is_fin_iff)
  obtain z where z: "Fin d / js_or (lastDist (gestureState s)) (Fin d) = Fin z"
    using pinch_zoom_fin [OF d(2)] by (auto simp: is_fin_iff)
  show ?thesis
    unfolding pinchMove_k k d(1) z by (simp add: within_bounds_def)
qed

lemma paneCenter_handleWheel [simp]: "paneCenter sd (handleWheel e s) = paneCenter sd s"
  by (simp add: paneCenter_def handleWheel_def Let_def)

lemma toWorld_fin:
  assumes "finite_rect (container s)" "is_fin (sliderPos s)"
    and "pane_transform sd s = \<lparr>tr_x = Fin x, tr_y = Fin y, tr_k = Fin k\<rparr>" and "k \<noteq> 0"
  shows "\<exists>cx cy. paneCenter sd s = (Fin cx, Fin cy)
           \<and> (\<forall>X Y. toWorld sd s (Fin X) (Fin Y) = (Fin ((X - cx) / k - x), Fin ((Y - cy) / k - y)))"
proof -
  from assms(1) obtain l t w h where r: "rect_left (container s) = Fin l" "rect_top (container s) = Fin t"
     "rect_width (container s) = Fin w" "rect_height (container s) = Fin h"
    by (auto simp: finite_rect_def is_fin_iff)
  from assms(2) obtain p where p: "sliderPos s = Fin p" by (auto simp: is_fin_iff)
  show ?thesis
  proof (cases sd)
    case Left
    then have t: "transform s = \<lparr>tr_x = Fin x, tr_y = Fin y, tr_k = Fin k\<rparr>"
      using assms(3) by (simp add: pane_transform_def)
    show ?thesis
      using Left r p t assms(4)
      by (simp add: paneCenter_def toWorld_def toWorkspaceWorld_def Let_def algebra_simps diff_divide_distrib)
  next
    case Right
    then have t: "refTransform s = \<lparr>tr_x = Fin x, tr_y = Fin y, tr_k = Fin k\<rparr>"
      using assms(3) by (simp add: pane_transform_def)
    show ?thesis
      using Right r p t assms(4)
      by (simp add: paneCenter_def toWorld_def toReferenceWorld_def Let_def algebra_simps diff_divide_distrib)
  qed
qed


lemma scale_eq_iff:
  fixes a k k' :: real
  assumes "k \<noteq> 0" "k' \<noteq> 0"
  shows "a / k' - x = a / k - x \<longleftrightarrow> a = 0 \<or> k' = k"
  using assms by (auto simp add: field_simps)

lemma finite_view_pane:
  assumes "finite_view s"
  shows "finite_rect (container s)" "is_fin (sliderPos s)"
    "\<exists>x y k. pane_transform sd s = \<lparr>tr_x = Fin x, tr_y = Fin y, tr_k = Fin k\<rparr> \<and> k \<noteq> 0"
proof -
  show "finite_rect (container s)" "is_fin (sliderPos s)"
    using assms by (simp_all add: finite_view_def)
  have "finite_transform (pane_transform sd s)"
    using assms by (simp add: finite_view_def pane_transform_def)
  then obtain x y k where "tr_x (pane_transform sd s) = Fin x" "tr_y (pane_transform sd s) = Fin y"
      "tr_k (pane_transform sd s) = Fin k" "k \<noteq> 0"
    by (auto simp add: finite_transform_def is_fin_iff)
  then have "pane_transform sd s = \<lparr>tr_x = Fin x, tr_y = Fin y, tr_k = Fin k\<rparr> \<and> k \<noteq> 0"
    by (cases "pane_transform sd s") simp
  then show "\<exists>x y k. pane_transform sd s = \<lparr>tr_x = Fin x, tr_y = Fin y, tr_k = Fin k\<rparr> \<and> k \<noteq> 0"
    by blast
qed

lemma wheel_zoom_centre:
  assumes "finite_view s" and "clientX e = Fin X" and "clientY e = Fin Y"
  shows "tr_x (pane_transform (sideAt e s) (handleWheel e s)) = tr_x (pane_transform (sideAt e s) s)
       \<and> tr_y (pane_transform (sideAt e s) (handleWheel e s)) = tr_y (pane_transform (sideAt e s) s)
       \<and> toWorld (sideAt e s) (handleWheel e s)
             (fst (paneCenter (sideAt e s) s)) (snd (paneCenter (sideAt e s) s))
           = toWorld (sideAt e s) s
             (fst (paneCenter (sideAt e s) s)) (snd (paneCenter (sideAt e s) s))
       \<and> (toWorld (sideAt e s) (handleWheel e s) (clientX e) (clientY e)
            = toWorld (sideAt e s) s (clientX e) (clientY e)
          \<longleftrightarrow> tr_k (pane_transform (sideAt e s) (handleWheel e s)) = tr_k (pane_transform (sideAt e s) s)
              \<or> (clientX e, clientY e) = paneCenter (sideAt e s) s)"
proof -
  let ?sd = "sideAt e s" and ?s' = "handleWheel e s"
  obtain x y k where t: "pane_transform ?sd s = \<lparr>tr_x = Fin x, tr_y = Fin y, tr_k = Fin k\<rparr>" and k: "k \<noteq> 0"
    using finite_view_pane(3) [OF assms(1)] by blast
  define f :: real where "f = (if deltaY e < Fin 0 then 1.1 else 0.9)"
  have f: "wheelFactor e = Fin f" by (simp add: wheelFactor_def f_def)
  define k' where "k' = max 0.1 (min (k * f) 10)"
  have "0.1 \<le> k'" by (simp add: k'_def)
  then have k': "k' \<noteq> 0" by linarith
  have t': "pane_transform ?sd ?s' = \<lparr>tr_x = Fin x, tr_y = Fin y, tr_k = Fin k'\<rparr>"
    by (simp add: handleWheel_transform t f k'_def)
  have view: "finite_rect (container ?s')" "is_fin (sliderPos ?s')"
    using finite_view_pane(1,2) [OF assms(1)] by (simp_all add: handleWheel_def Let_def)
  obtain cx cy where c: "paneCenter ?sd s = (Fin cx, Fin cy)"
    and w: "\<And>X Y. toWorld ?sd s (Fin X) (Fin Y) = (Fin ((X - cx) / k - x), Fin ((Y - cy) / k - y))"
    using toWorld_fin [OF finite_view_pane(1,2) [OF assms(1)] t k] by blast
  obtain cx' cy' where c': "paneCenter ?sd ?s' = (Fin cx', Fin cy')"
    and w': "\<And>X Y. toWorld ?sd ?s' (Fin X) (Fin Y) = (Fin ((X - cx') / k' - x), Fin ((Y - cy') / k' - y))"
    using toWorld_fin [OF view t' k'] by blast
  have same: "cx' = cx" "cy' = cy" using c c' by simp_all
  show ?thesis
    using k k' by (simp add: t t' c w w' same assms(2,3) scale_eq_iff) blast
qed


lemma pinchMove_view [simp]:
  "container (pinchMove p1 p2 s) = container s"
  "sliderPos (pinchMove p1 p2 s) = sliderPos s"
  "activeSide (pinchMove p1 p2 s) = activeSide s"
  by (simp_all add: pinchMove_def Let_def set_active_transform_def set_pane_transform_def)

lemma paneCenter_pinchMove [simp]: "paneCenter sd (pinchMove p1 p2 s) = paneCenter sd s"
  by (simp add: paneCenter_def Let_def)

lemma pane_transform_gestureState [simp]:
  "pane_transform sd (s\<lparr>gestureState := g\<rparr>) = pane_transform sd s"
  by (simp add: pane_transform_def)

lemma pinch_zoom_centre:
  assumes "finite_view s"
    and "clientX p1 = Fin x1" "clientY p1 = Fin y1" "clientX p2 = Fin x2" "clientY p2 = Fin y2"
    and "getDist p1 p2 \<noteq> Fin 0"
    and "lastCenter (gestureState s) = Some (Fin lx, Fin ly)"
  shows "toWorld (activeSide s) (pinchMove p1 p2 s) (fst (getCenter p1 p2)) (snd (getCenter p1 p2))
           = toWorld (activeSide s) s (Fin lx) (Fin ly)
         \<longleftrightarrow> tr_k (active_transform (pinchMove p1 p2 s)) = tr_k (active_transform s)
             \<or> (Fin lx, Fin ly) = paneCenter (activeSide s) s"
proof -
  let ?sd = "activeSide s" and ?s' = "pinchMove p1 p2 s"
  obtain x y k where t: "pane_transform ?sd s = \<lparr>tr_x = Fin x, tr_y = Fin y, tr_k = Fin k\<rparr>" and k: "k \<noteq> 0"
    using finite_view_pane(3) [OF assms(1)] by blast
  define d where "d = hypot (x1 - x2) (y1 - y2)"
  have d: "getDist p1 p2 = Fin d" unfolding d_def by (rule getDist_fin [OF assms(2-5)])
  with assms(6) have d0: "d \<noteq> 0" by simp
  obtain z where z: "Fin d / js_or (lastDist (gestureState s)) (Fin d) = Fin z"
    using pinch_zoom_fin [OF d0] by (auto simp: is_fin_iff)
  define k' where "k' = max 0.1 (min (k * z) 10)"
  have "0.1 \<le> k'" by (simp add: k'_def)
  then have k': "k' \<noteq> 0" by linarith
  define mx my where "mx = (x1 + x2) / 2" and "my = (y1 + y2) / 2"
  have c: "getCenter p1 p2 = (Fin mx, Fin my)"
    by (simp add: getCenter_def assms(2-5) mx_def my_def)
  have t': "pane_transform ?sd ?s' =
      \<lparr>tr_x = Fin (x + (mx - lx) / k'), tr_y = Fin (y + (my - ly) / k'), tr_k = Fin k'\<rparr>"
    using k' t
    by (simp add: pinchMove_def Let_def active_transform_def set_active_transform_def pan_by_def
        d z c assms(7) k'_def)
  have view: "finite_rect (container ?s')" "is_fin (sliderPos ?s')"
    using finite_view_pane(1,2) [OF assms(1)] by simp_all
  obtain cx cy where pc: "paneCenter ?sd s = (Fin cx, Fin cy)"
    and w: "\<And>X Y. toWorld ?sd s (Fin X) (Fin Y) = (Fin ((X - cx) / k - x), Fin ((Y - cy) / k - y))"
    using toWorld_fin [OF finite_view_pane(1,2) [OF assms(1)] t k] by blast
  obtain cx' cy' where pc': "paneCenter ?sd ?s' = (Fin cx', Fin cy')"
    and w': "\<And>X Y. toWorld ?sd ?s' (Fin X) (Fin Y)
        = (Fin ((X - cx') / k' - (x + (mx - lx) / k')), Fin ((Y - cy') / k' - (y + (my - ly) / k')))"
    using toWorld_fin [OF view t' k'] by blast
  have same: "cx' = cx" "cy' = cy" using pc pc' by simp_all
  have e1: "(mx - cx) / k' - (x + (mx - lx) / k') = (lx - cx) / k' - x"
    by (simp add: diff_divide_distrib)
  have e2: "(my - cy) / k' - (y + (my - ly) / k') = (ly - cy) / k' - y"
    by (simp add: diff_divide_distrib)
  have kk: "tr_k (active_transform ?s') = Fin k'" "tr_k (active_transform s) = Fin k"
    using t t' by (simp_all add: active_transform_def)
  show ?thesis
    using k k' by (simp add: c w w' same e1 e2 pc kk scale_eq_iff) blast
qed

lemma handlePointerMove_pinch:
  "pinching e s p1 p2 \<Longrightarrow>
     handlePointerMove e s = pinchMove p1 p2 (s\<lparr>pointers := map_set (pointers s) (pointerId e) e\<rparr>)"
  by (simp add: pinching_def handlePointerMove_def Let_def)


lemmas gesture_defs = handlePointerDown_def handlePointerMove_def init_app_def window_rect_def
  pointer_at_def wheel_at_def xPct_def sideAt_def beginStroke_def toWorld_def toWorkspaceWorld_def
  map_has_def pinchMove_def getDist_def getCenter_def js_or_def active_transform_def
  set_active_transform_def pane_transform_def set_pane_transform_def pan_by_def handleWheel_def
  Let_def

lemma toWorld_pointers [simp]: "toWorld sd (s\<lparr>pointers := m\<rparr>) X Y = toWorld sd s X Y"
  by (simp add: toWorld_def toWorkspaceWorld_def toReferenceWorld_def)

lemma paneCenter_pointers [simp]: "paneCenter sd (s\<lparr>pointers := m\<rparr>) = paneCenter sd s"
  by (simp add: paneCenter_def Let_def)

lemma pane_transform_pointers [simp]: "pane_transform sd (s\<lparr>pointers := m\<rparr>) = pane_transform sd s"
  by (simp add: pane_transform_def)

lemma finite_view_pointers [simp]: "finite_view (s\<lparr>pointers := m\<rparr>) = finite_view s"
  by (simp add: finite_view_def)

text \<open>
  C2 (amended). Neither zoom compensates the pan for the change of scale. A wheel zoom
  leaves \<open>x\<close> and \<open>y\<close> of the zoomed pane unchanged, so the world point under the centre
  that the pane's screen-to-world conversion uses is the same before and after, while
  the world point under the cursor is the same only if the cursor is at that centre or
  \<open>k\<close> does not change. A pinch move (two registered pointers at distinct positions)
  adds the movement of the midpoint, divided by the new \<open>k\<close>, to \<open>x\<close> and \<open>y\<close>: the world
  point under the new midpoint equals the one that was under the previous midpoint only
  if the previous midpoint was at that centre or \<open>k\<close> does not change. All of it for a
  finite view (finite rectangle, slider and transforms, with non-zero scales).
\<close>

theorem zoom_keeps_centre_not_anchor:
  assumes "finite_view s"
  shows "(is_fin (clientX e) \<and> is_fin (clientY e) \<longrightarrow>
            tr_x (pane_transform (sideAt e s) (handleWheel e s)) = tr_x (pane_transform (sideAt e s) s)
          \<and> tr_y (pane_transform (sideAt e s) (handleWheel e s)) = tr_y (pane_transform (sideAt e s) s)
          \<and> toWorld (sideAt e s) (handleWheel e s)
               (fst (paneCenter (sideAt e s) s)) (snd (paneCenter (sideAt e s) s))
             = toWorld (sideAt e s) s
               (fst (paneCenter (sideAt e s) s)) (snd (paneCenter (sideAt e s) s))
          \<and> (toWorld (sideAt e s) (handleWheel e s) (clientX e) (clientY e)
                = toWorld (sideAt e s) s (clientX e) (clientY e)
              \<longleftrightarrow> tr_k (pane_transform (sideAt e s) (handleWheel e s))
                    = tr_k (pane_transform (sideAt e s) s)
                  \<or> (clientX e, clientY e) = paneCenter (sideAt e s) s))
       \<and> (pinching m s p1 p2 \<and> is_fin (clientX p1) \<and> is_fin (clientY p1)
            \<and> is_fin (clientX p2) \<and> is_fin (clientY p2) \<and> getDist p1 p2 \<noteq> Fin 0
            \<and> lastCenter (gestureState s) = Some (Fin lx, Fin ly) \<longrightarrow>
            (toWorld (activeSide s) (handlePointerMove m s)
                 (fst (getCenter p1 p2)) (snd (getCenter p1 p2))
               = toWorld (activeSide s) s (Fin lx) (Fin ly)
             \<longleftrightarrow> tr_k (active_transform (handlePointerMove m s)) = tr_k (active_transform s)
                 \<or> (Fin lx, Fin ly) = paneCenter (activeSide s) s))"
proof (intro conjI impI)
  assume "is_fin (clientX e) \<and> is_fin (clientY e)"
  then obtain X Y where e: "clientX e = Fin X" "clientY e = Fin Y" by (auto simp: is_fin_iff)
  note w = wheel_zoom_centre [OF assms e]
  from w show "tr_x (pane_transform (sideAt e s) (handleWheel e s)) = tr_x (pane_transform (sideAt e s) s)"
    by blast
  from w show "tr_y (pane_transform (sideAt e s) (handleWheel e s)) = tr_y (pane_transform (sideAt e s) s)"
    by blast
  from w show "toWorld (sideAt e s) (handleWheel e s)
               (fst (paneCenter (sideAt e s) s)) (snd (paneCenter (sideAt e s) s))
             = toWorld (sideAt e s) s
               (fst (paneCenter (sideAt e s) s)) (snd (paneCenter (sideAt e s) s))"
    by blast
  from w show "toWorld (sideAt e s) (handleWheel e s) (clientX e) (clientY e)
                = toWorld (sideAt e s) s (clientX e) (clientY e)
              \<longleftrightarrow> tr_k (pane_transform (sideAt e s) (handleWheel e s))
                    = tr_k (pane_transform (sideAt e s) s)
                  \<or> (clientX e, clientY e) = paneCenter (sideAt e s) s"
    by blast
next
  let ?s1 = "s\<lparr>pointers := map_set (pointers s) (pointerId m) m\<rparr>"
  assume h: "pinching m s p1 p2 \<and> is_fin (clientX p1) \<and> is_fin (clientY p1)
            \<and> is_fin (clientX p2) \<and> is_fin (clientY p2) \<and> getDist p1 p2 \<noteq> Fin 0
            \<and> lastCenter (gestureState s) = Some (Fin lx, Fin ly)"
  then obtain x1 y1 x2 y2 where p: "clientX p1 = Fin x1" "clientY p1 = Fin y1"
      "clientX p2 = Fin x2" "clientY p2 = Fin y2"
    by (auto simp: is_fin_iff)
  have mv: "handlePointerMove m s = pinchMove p1 p2 ?s1"
    using h by (simp add: handlePointerMove_pinch)
  have fv: "finite_view ?s1" using assms by simp
  have lc: "lastCenter (gestureState ?s1) = Some (Fin lx, Fin ly)" using h by simp
  have d: "getDist p1 p2 \<noteq> Fin 0" using h by simp
  show "toWorld (activeSide s) (handlePointerMove m s)
                 (fst (getCenter p1 p2)) (snd (getCenter p1 p2))
               = toWorld (activeSide s) s (Fin lx) (Fin ly)
             \<longleftrightarrow> tr_k (active_transform (handlePointerMove m s)) = tr_k (active_transform s)
                 \<or> (Fin lx, Fin ly) = paneCenter (activeSide s) s"
    using pinch_zoom_centre [OF fv p d lc] by (simp add: mv active_transform_def)
qed

lemma finite_view_init: "finite_view (init_app window_rect)"
  by (simp add: finite_view_def finite_rect_def finite_transform_def init_app_def window_rect_def)

lemma pinch_start_eval:
  "pointers pinch_start = [(1, pointer_at 1 600 400), (2, pointer_at 2 800 400)]
   \<and> gestureState pinch_start = \<lparr>lastDist = Fin 200, lastCenter = Some (Fin 700, Fin 400), lastPos = None\<rparr>
   \<and> transform pinch_start = \<lparr>tr_x = Fin 0, tr_y = Fin 0, tr_k = Fin 1\<rparr>
   \<and> refTransform pinch_start = \<lparr>tr_x = Fin 0, tr_y = Fin 0, tr_k = Fin 1\<rparr>
   \<and> activeSide pinch_start = Left \<and> \<not> isMiddleMousePanning pinch_start
   \<and> container pinch_start = window_rect \<and> sliderPos pinch_start = Fin 0.5
   \<and> \<not> isComparing pinch_start"
  by (simp add: pinch_start_def gesture_defs)

lemma pinch_spread_eval:
  "transform (handlePointerMove (pointer_at 2 1000 400) pinch_start)
     = \<lparr>tr_x = Fin 50, tr_y = Fin 0, tr_k = Fin 2\<rparr>"
  using pinch_start_eval
  by (simp add: handlePointerMove_def map_has_def pinchMove_def Let_def getDist_def getCenter_def js_or_def
     active_transform_def set_active_transform_def pane_transform_def set_pane_transform_def pan_by_def pointer_at_def)

text \<open>
  The examples: a wheel zoom-in at \<open>(600, 400)\<close>, and a pinch that starts with the
  pointers at \<open>(600, 400)\<close> and \<open>(800, 400)\<close>.
\<close>

lemma wheel_in_eval:
  "transform (handleWheel (wheel_at 600 400 (- 1)) (init_app window_rect))
     = \<lparr>tr_x = Fin 0, tr_y = Fin 0, tr_k = Fin 1.1\<rparr>
   \<and> sideAt (wheel_at 600 400 (- 1)) (init_app window_rect) = Left"
  by (simp add: gesture_defs wheelFactor_def)

lemma handleWheel_view [simp]:
  "container (handleWheel e s) = container s"
  "sliderPos (handleWheel e s) = sliderPos s"
  "isComparing (handleWheel e s) = isComparing s"
  by (simp_all add: handleWheel_def Let_def)

lemma pinch_spread_pinching:
  "pinching (pointer_at 2 1000 400) pinch_start (pointer_at 1 600 400) (pointer_at 2 1000 400)"
  using pinch_start_eval by (simp add: pinching_def map_has_def pointer_at_def)

lemma wheel_in_pinch_start:
  "transform (handleWheel (wheel_at 600 400 (- 1)) pinch_start)
     = \<lparr>tr_x = Fin 0, tr_y = Fin 0, tr_k = Fin 1.1\<rparr>
   \<and> sideAt (wheel_at 600 400 (- 1)) pinch_start = Left"
  using pinch_start_eval
  by (simp add: handleWheel_def Let_def sideAt_def wheelFactor_def wheel_at_def pane_transform_def
      set_pane_transform_def)

lemma finite_view_pinch_start: "finite_view pinch_start"
  using pinch_start_eval
  by (simp add: finite_view_def finite_rect_def finite_transform_def window_rect_def)

lemma paneCenter_pinch_start: "paneCenter Left pinch_start = (Fin 500, Fin 400)"
  using pinch_start_eval by (simp add: paneCenter_def window_rect_def)

theorem zoom_keeps_centre_not_anchor_witness:
  "finite_view pinch_start
   \<and> pinching (pointer_at 2 1000 400) pinch_start (pointer_at 1 600 400) (pointer_at 2 1000 400)
   \<and> toWorld Left (handleWheel (wheel_at 600 400 (- 1)) pinch_start) (Fin 500) (Fin 400)
       = toWorld Left pinch_start (Fin 500) (Fin 400)
   \<and> toWorld Left (handleWheel (wheel_at 600 400 (- 1)) pinch_start) (Fin 600) (Fin 400)
       \<noteq> toWorld Left pinch_start (Fin 600) (Fin 400)
   \<and> toWorld Left (handlePointerMove (pointer_at 2 1000 400) pinch_start) (Fin 800) (Fin 400)
       \<noteq> toWorld Left pinch_start (Fin 700) (Fin 400)"
proof -
  let ?w = "wheel_at 600 400 (- 1)" and ?m = "pointer_at 2 1000 400" and ?p1 = "pointer_at 1 600 400"
  note T = zoom_keeps_centre_not_anchor [OF finite_view_pinch_start, of ?w ?m ?p1 ?m 700 400]
  have ew: "clientX ?w = Fin 600" "clientY ?w = Fin 400"
    by (simp_all add: wheel_at_def)
  have wheel: "toWorld Left (handleWheel ?w pinch_start) (Fin 500) (Fin 400)
                 = toWorld Left pinch_start (Fin 500) (Fin 400)
       \<and> (toWorld Left (handleWheel ?w pinch_start) (Fin 600) (Fin 400)
            = toWorld Left pinch_start (Fin 600) (Fin 400)
          \<longleftrightarrow> tr_k (pane_transform Left (handleWheel ?w pinch_start))
                = tr_k (pane_transform Left pinch_start)
              \<or> (Fin 600, Fin 400) = paneCenter Left pinch_start)"
    using T [THEN conjunct1] wheel_in_pinch_start paneCenter_pinch_start
    by (simp add: ew)
  have g: "getCenter ?p1 ?m = (Fin 800, Fin 400)" "getDist ?p1 ?m = Fin 400"
      "is_fin (clientX ?p1)" "is_fin (clientY ?p1)" "is_fin (clientX ?m)" "is_fin (clientY ?m)"
    by (simp_all add: getCenter_def getDist_def pointer_at_def)
  have lc: "lastCenter (gestureState pinch_start) = Some (Fin 700, Fin 400)"
      "activeSide pinch_start = Left"
    using pinch_start_eval by simp_all
  have pinch: "toWorld Left (handlePointerMove ?m pinch_start) (Fin 800) (Fin 400)
                 = toWorld Left pinch_start (Fin 700) (Fin 400)
             \<longleftrightarrow> tr_k (active_transform (handlePointerMove ?m pinch_start))
                   = tr_k (active_transform pinch_start)
                 \<or> (Fin 700, Fin 400) = paneCenter Left pinch_start"
    using T [THEN conjunct2] pinch_spread_pinching g lc by simp
  have act: "activeSide (handlePointerMove ?m pinch_start) = Left"
    using pinch_spread_pinching lc by (simp add: handlePointerMove_pinch)
  have k1: "tr_k (pane_transform Left (handleWheel ?w pinch_start)) \<noteq> tr_k (pane_transform Left pinch_start)"
    using wheel_in_pinch_start pinch_start_eval by (simp add: pane_transform_def)
  have k2: "tr_k (active_transform (handlePointerMove ?m pinch_start)) \<noteq> tr_k (active_transform pinch_start)"
    using pinch_spread_eval pinch_start_eval act
    by (simp add: active_transform_def pane_transform_def)
  show ?thesis
    using wheel pinch k1 k2 paneCenter_pinch_start finite_view_pinch_start pinch_spread_pinching
    by simp
qed

text \<open>
  C2 as stated fails: in the initial state, a wheel zoom-in at the cursor \<open>(600, 400)\<close> of
  a 1000 by 800 window takes \<open>k\<close> from 1 to 1.1, within bounds, and the world point
  under the cursor from \<open>(100, 0)\<close> to \<open>(1000/11, 0)\<close>; a pinch from the pointers at
  \<open>(600, 400)\<close> and \<open>(800, 400)\<close> that moves the second one to \<open>(1000, 400)\<close> takes \<open>k\<close>
  to 2, and the world point under the midpoint from \<open>(200, 0)\<close> to \<open>(100, 0)\<close>.
\<close>

theorem zoom_anchor_counterexample:
  "tr_k (transform (handleWheel (wheel_at 600 400 (- 1)) (init_app window_rect))) = Fin 1.1
   \<and> toWorkspaceWorld (handleWheel (wheel_at 600 400 (- 1)) (init_app window_rect)) (Fin 600) (Fin 400)
       \<noteq> toWorkspaceWorld (init_app window_rect) (Fin 600) (Fin 400)
   \<and> tr_k (transform (handlePointerMove (pointer_at 2 1000 400) pinch_start)) = Fin 2
   \<and> toWorkspaceWorld (handlePointerMove (pointer_at 2 1000 400) pinch_start) (Fin 800) (Fin 400)
       \<noteq> toWorkspaceWorld pinch_start (Fin 700) (Fin 400)"
proof -
  have a: "toWorkspaceWorld (handleWheel (wheel_at 600 400 (- 1)) (init_app window_rect)) (Fin 600) (Fin 400)
       = (Fin (1000 / 11), Fin 0)"
    using wheel_in_eval
    by (simp add: toWorkspaceWorld_def) (simp add: init_app_def window_rect_def)
  have b: "toWorkspaceWorld (init_app window_rect) (Fin 600) (Fin 400) = (Fin 100, Fin 0)"
    by (simp add: toWorkspaceWorld_def init_app_def window_rect_def)
  have c: "toWorkspaceWorld pinch_start (Fin 700) (Fin 400) = (Fin 200, Fin 0)"
    using pinch_start_eval by (simp add: toWorkspaceWorld_def window_rect_def)
  have cont: "container (handlePointerMove (pointer_at 2 1000 400) pinch_start) = window_rect"
    using pinch_start_eval pinch_spread_pinching by (simp add: handlePointerMove_pinch)
  have d: "toWorkspaceWorld (handlePointerMove (pointer_at 2 1000 400) pinch_start) (Fin 800) (Fin 400)
       = (Fin 100, Fin 0)"
    using pinch_spread_eval cont by (simp add: toWorkspaceWorld_def window_rect_def)
  show ?thesis using a b c d wheel_in_eval pinch_spread_eval by simp
qed

text \<open>
  C4 (amended). The two zoom gestures keep the scale within \<open>[0.1, 10]\<close>: a wheel zoom
  from any scale that is not NaN, and a pinch move between two distinct, finite pointer
  positions from any finite scale; and 100 consecutive wheel zoom-ins (factor 1.1) from
  a scale within the bounds end at exactly 10. The fit on image load and on recenter
  sets the scale to \<open>min (availW / width) (availH / height) * 0.9\<close> as it is, without a
  clamp.
\<close>

theorem zoom_gestures_keep_scale_within_bounds:
  "(tr_k (pane_transform (sideAt e s) s) \<noteq> NaN \<longrightarrow>
      within_bounds (tr_k (pane_transform (sideAt e s) (handleWheel e s))))
   \<and> (pinching m s p1 p2 \<and> is_fin (tr_k (active_transform s))
        \<and> is_fin (getDist p1 p2) \<and> getDist p1 p2 \<noteq> Fin 0 \<longrightarrow>
      within_bounds (tr_k (active_transform (handlePointerMove m s))))
   \<and> (deltaY e < Fin 0 \<and> within_bounds (tr_k (pane_transform (sideAt e s) s)) \<longrightarrow>
      tr_k (pane_transform (sideAt e s) ((handleWheel e ^^ 100) s)) = Fin 10)
   \<and> tr_k (transform (handleFile img s)) =
        scaleFit (if isComparing s then rect_width (container s) * sliderPos s
                  else rect_width (container s)) (rect_height (container s)) img
   \<and> tr_k (refTransform (handleReferenceFile img s)) =
        scaleFit (rect_width (container s) * (Fin 1 - sliderPos s)) (rect_height (container s)) img
   \<and> (image_st s = Some img \<longrightarrow>
        tr_k (transform (recenterImage s)) =
          scaleFit (if isComparing s then rect_width (container s) * sliderPos s
                    else rect_width (container s)) (rect_height (container s)) img)
   \<and> (referenceImage s = Some img \<longrightarrow>
        tr_k (refTransform (recenterReferenceImage s)) =
          scaleFit (rect_width (container s) * (Fin 1 - sliderPos s)) (rect_height (container s)) img)"
proof (intro conjI impI)
  assume "tr_k (pane_transform (sideAt e s) s) \<noteq> NaN"
  then show "within_bounds (tr_k (pane_transform (sideAt e s) (handleWheel e s)))"
    by (rule handleWheel_within_bounds)
next
  assume h: "pinching m s p1 p2 \<and> is_fin (tr_k (active_transform s))
        \<and> is_fin (getDist p1 p2) \<and> getDist p1 p2 \<noteq> Fin 0"
  let ?s1 = "s\<lparr>pointers := map_set (pointers s) (pointerId m) m\<rparr>"
  have "within_bounds (tr_k (active_transform (pinchMove p1 p2 ?s1)))"
    using h by (intro pinchMove_within_bounds) (simp_all add: active_transform_def)
  moreover have "handlePointerMove m s = pinchMove p1 p2 ?s1"
    using h handlePointerMove_pinch by blast
  ultimately show "within_bounds (tr_k (active_transform (handlePointerMove m s)))"
    by simp
next
  assume "deltaY e < Fin 0 \<and> within_bounds (tr_k (pane_transform (sideAt e s) s))"
  then show "tr_k (pane_transform (sideAt e s) ((handleWheel e ^^ 100) s)) = Fin 10"
    by (simp add: hundred_wheel_in)
qed (simp_all add: handleFile_def handleReferenceFile_def recenterImage_def
    recenterReferenceImage_def Let_def)

lemma tiny_image_loaded_k: "tr_k (transform tiny_image_loaded) = Fin 72"
  by (simp add: tiny_image_loaded_def handleFile_def scaleFit_def gray_image_def init_app_def
      window_rect_def Let_def)

text \<open>
  C4 as stated fails: loading a 10 by 10 image into the 1000 by 800 window, or
  recentering it, sets \<open>k = min (1000 / 10) (800 / 10) * 0.9 = 72\<close>, above 10.
\<close>

theorem fit_leaves_bounds_counterexample:
  "tr_k (transform (handleFile (gray_image 10 10) (init_app window_rect))) = Fin 72
   \<and> \<not> within_bounds (tr_k (transform (handleFile (gray_image 10 10) (init_app window_rect))))
   \<and> \<not> within_bounds (tr_k (transform (recenterImage
          ((init_app window_rect)\<lparr>image_st := Some (gray_image 10 10)\<rparr>))))"
  by (simp add: handleFile_def recenterImage_def scaleFit_def gray_image_def init_app_def
      window_rect_def Let_def within_bounds_def)

theorem zoom_gestures_keep_scale_within_bounds_witness:
  "within_bounds (tr_k (transform (handleWheel (wheel_at 600 400 (- 1)) tiny_image_loaded)))
   \<and> tr_k (transform (handleWheel (wheel_at 600 400 (- 1)) tiny_image_loaded)) = Fin 10
   \<and> pinching (pointer_at 2 1000 400) pinch_start (pointer_at 1 600 400) (pointer_at 2 1000 400)
   \<and> within_bounds (tr_k (transform (handlePointerMove (pointer_at 2 1000 400) pinch_start)))
   \<and> tr_k (transform ((handleWheel (wheel_at 600 400 (- 1)) ^^ 100) pinch_start)) = Fin 10"
proof -
  let ?w = "wheel_at 600 400 (- 1)" and ?m = "pointer_at 2 1000 400" and ?p1 = "pointer_at 1 600 400"
  have side: "sideAt ?w tiny_image_loaded = Left"
    by (simp add: sideAt_def tiny_image_loaded_def handleFile_def init_app_def Let_def)
  have a: "within_bounds (tr_k (transform (handleWheel ?w tiny_image_loaded)))"
    using zoom_gestures_keep_scale_within_bounds [of ?w tiny_image_loaded, THEN conjunct1]
      side tiny_image_loaded_k
    by (simp add: pane_transform_def)
  have a': "tr_k (transform (handleWheel ?w tiny_image_loaded)) = Fin 10"
    using handleWheel_transform [of ?w tiny_image_loaded] side tiny_image_loaded_k
    by (simp add: pane_transform_def wheelFactor_def wheel_at_def)
  have g: "is_fin (getDist ?p1 ?m)" "getDist ?p1 ?m \<noteq> Fin 0"
    by (simp_all add: getDist_def pointer_at_def)
  have "handlePointerMove ?m pinch_start
          = pinchMove ?p1 ?m (pinch_start\<lparr>pointers := map_set (pointers pinch_start) (pointerId ?m) ?m\<rparr>)"
    using pinch_spread_pinching by (rule handlePointerMove_pinch)
  then have act: "activeSide (handlePointerMove ?m pinch_start) = Left" "activeSide pinch_start = Left"
    using pinch_start_eval by simp_all
  have b: "within_bounds (tr_k (transform (handlePointerMove ?m pinch_start)))"
    using zoom_gestures_keep_scale_within_bounds [of _ pinch_start ?m ?p1 ?m,
        THEN conjunct2, THEN conjunct1]
      pinch_spread_pinching g pinch_start_eval act
    by (simp add: active_transform_def pane_transform_def)
  have c: "tr_k (transform ((handleWheel ?w ^^ 100) pinch_start)) = Fin 10"
    using zoom_gestures_keep_scale_within_bounds [of ?w pinch_start,
        THEN conjunct2, THEN conjunct2, THEN conjunct1]
      wheel_in_pinch_start pinch_start_eval
    by (simp add: pane_transform_def within_bounds_def wheel_at_def)
  show ?thesis using a a' b c pinch_spread_pinching by simp
qed

section \<open>Degenerate pinch\<close>

text \<open>
  C6 (the code departs from the claim). With both pointers at one position from the
  start, the second pointer-down stores a distance of zero; at the move the fallback
  \<open>lastDist || dist\<close> yields the current distance, zero as well, so \<open>zoom = 0 / 0\<close> is
  NaN, \<open>k\<close> becomes NaN through the clamp, and \<open>x\<close> and \<open>y\<close> become NaN through the pan;
  a later wheel zoom leaves \<open>k\<close> at NaN. When the pointers were apart before and
  coincide at the move, \<open>zoom = 0\<close> and the scale drops from 1 to the lower bound 0.1.
\<close>

theorem coincident_pinch_not_finite:
  "gestureState (handlePointerDown (pointer_at 2 100 100)
         (handlePointerDown (pointer_at 1 100 100) (init_app window_rect)))
     = \<lparr>lastDist = Fin 0, lastCenter = Some (Fin 100, Fin 100), lastPos = None\<rparr>
   \<and> transform coincident_pinch = \<lparr>tr_x = NaN, tr_y = NaN, tr_k = NaN\<rparr>
   \<and> tr_k (transform (handleWheel (wheel_at 600 400 (- 1)) coincident_pinch)) = NaN
   \<and> transform closing_pinch = \<lparr>tr_x = Fin (- 1000), tr_y = Fin 0, tr_k = Fin 0.1\<rparr>"
  by (simp add: coincident_pinch_def closing_pinch_def gesture_defs wheelFactor_def)

section \<open>Rendering and screen-to-world conversion\<close>

text \<open>
  On finite data, the workspace pane renders the world point of a client position at
  that position only outside comparison mode; in comparison mode it renders it
  \<open>width * (1 - sliderPos) / 2\<close> to the left. The reference pane, whose conversion
  takes the split into account, renders it at the position itself.
\<close>

lemmas render_defs = toWorkspaceWorld_def toReferenceWorld_def workspace_rendered_at_def
  reference_rendered_at_def device_to_client_def draw_workspace_ctm_def drawWorkspace_def
  drawReference_def ctx_apply_def ctx_translate_def ctx_scale_def ctx_identity_def

lemma render_workspace:
  assumes "container s = \<lparr>rect_left = Fin l, rect_top = Fin t, rect_width = Fin w, rect_height = Fin h\<rparr>"
    and "transform s = \<lparr>tr_x = Fin x, tr_y = Fin y, tr_k = Fin k\<rparr>"
    and "sliderPos s = Fin p" and "k \<noteq> 0" and "d \<noteq> 0"
  shows "workspace_rendered_at s (Fin d) (toWorkspaceWorld s (Fin X) (Fin Y)) =
          (Fin (if isComparing s then X - w * (1 - p) / 2 else X), Fin Y)"
  using assms by (simp add: render_defs field_simps)

lemma render_reference:
  assumes "container s = \<lparr>rect_left = Fin l, rect_top = Fin t, rect_width = Fin w, rect_height = Fin h\<rparr>"
    and "refTransform s = \<lparr>tr_x = Fin x, tr_y = Fin y, tr_k = Fin k\<rparr>"
    and "sliderPos s = Fin p" and "k \<noteq> 0" and "d \<noteq> 0" and "referenceImage s = Some img"
  shows "reference_rendered_at s (Fin d) (toReferenceWorld s (Fin X) (Fin Y)) = Some (Fin X, Fin Y)"
  using assms by (simp add: render_defs field_simps)

text \<open>
  C7 (the code departs from the claim). In comparison mode with the slider at 0.5, the
  cursor at \<open>(100, 400)\<close> over the workspace pane is converted to the world point
  \<open>(-400, 0)\<close>, with the centre of the whole container; \<^verbatim>\<open>drawWorkspace\<close> draws that point
  with the centre of the left pane, at \<open>(-150, 400)\<close>, 250 to the left of the cursor.
  For the reference pane the two agree.
\<close>

theorem workspace_stroke_offset_in_comparison:
  "toWorkspaceWorld comparing (Fin 100) (Fin 400) = (Fin (- 400), Fin 0)
   \<and> workspace_rendered_at comparing (Fin 1) (toWorkspaceWorld comparing (Fin 100) (Fin 400))
       = (Fin (- 150), Fin 400)
   \<and> reference_rendered_at comparing (Fin 1) (toReferenceWorld comparing (Fin 900) (Fin 400))
       = Some (Fin 900, Fin 400)"
  by (simp add: comparing_def handleReferenceFile_def scaleFit_def gray_image_def init_app_def
      window_rect_def render_defs)

section \<open>Image load\<close>

text \<open>
  The image-load callbacks empty the stroke list and the history stack of their pane;
  neither assigns the redo stack.
\<close>

lemma image_load_keeps_redo:
  "redoStack (handleFile img s) = redoStack s
   \<and> refRedoStack (handleReferenceFile img s) = refRedoStack s"
  by (simp add: handleFile_def handleReferenceFile_def Let_def)

lemma image_load_resets_strokes:
  "paths (handleFile img s) = [] \<and> history (handleFile img s) = []
   \<and> refPaths (handleReferenceFile img s) = [] \<and> refHistory (handleReferenceFile img s) = []"
  by (simp add: handleFile_def handleReferenceFile_def Let_def)

text \<open>
  C5 (the code departs from the claim). After a stroke was drawn and undone, loading a
  100 by 100 image into the workspace pane empties the stroke list and the history
  stack, but the redo stack still holds the undone stroke, and a redo puts that stroke
  of the replaced image back on the new one. The reference pane does the same: after a
  stroke was drawn there and undone, loading another reference image leaves the undone
  stroke on the reference redo stack.
\<close>

theorem image_load_stale_redo:
  "paths (handleFile (gray_image 100 100) drawn_and_undone) = []
   \<and> history (handleFile (gray_image 100 100) drawn_and_undone) = []
   \<and> redoStack (handleFile (gray_image 100 100) drawn_and_undone) =
       [[\<lparr>points = [(Fin (- 490), Fin (- 390))], color = ''#FF4444'', size_p = Fin 12,
          isEraser = False\<rparr>]]
   \<and> paths (handleRedo (handleFile (gray_image 100 100) drawn_and_undone)) =
       [\<lparr>points = [(Fin (- 490), Fin (- 390))], color = ''#FF4444'', size_p = Fin 12,
          isEraser = False\<rparr>]
   \<and> refPaths (handleReferenceFile (gray_image 50 50) reference_drawn_and_undone) = []
   \<and> refHistory (handleReferenceFile (gray_image 50 50) reference_drawn_and_undone) = []
   \<and> refRedoStack (handleReferenceFile (gray_image 50 50) reference_drawn_and_undone) =
       [[\<lparr>points = [(Fin (100 / 3), Fin 0)], color = ''#FF4444'', size_p = Fin 12,
          isEraser = False\<rparr>]]"
  using drawn_and_undone_redoStack reference_drawn_and_undone_redo
  by (simp add: handleFile_def handleRedo_def handleReferenceFile_def Let_def)
section \<open>A second pointer during a stroke\<close>

text \<open>A pointer-down and a pointer-move never change the ink model.\<close>

lemma ink_update [simp]:
  "ink (s\<lparr>gestureState := g\<rparr>) = ink s"
  "ink (s\<lparr>pointers := m\<rparr>) = ink s"
  "ink (s\<lparr>activeSide := sd\<rparr>) = ink s"
  "ink (s\<lparr>currentPath := c\<rparr>) = ink s"
  "ink (s\<lparr>currentRefPath := c\<rparr>) = ink s"
  "ink (s\<lparr>failed := f\<rparr>) = ink s"
  "ink (s\<lparr>transform := t\<rparr>) = ink s"
  "ink (s\<lparr>refTransform := t\<rparr>) = ink s"
  "ink (s\<lparr>isMiddleMousePanning := b\<rparr>) = ink s"
  "ink (s\<lparr>middleMouseLastPos := l\<rparr>) = ink s"
  "ink (s\<lparr>version := v\<rparr>) = ink s"
  by (simp_all add: ink_def)

lemma ink_set_pane_transform [simp]: "ink (set_pane_transform sd t s) = ink s"
  by (simp add: set_pane_transform_def)

lemma ink_beginStroke [simp]: "ink (beginStroke sd e s) = ink s"
  by (simp add: beginStroke_def Let_def split: sum.split)

lemma ink_pinchMove [simp]: "ink (pinchMove p1 p2 s) = ink s"
  by (simp add: pinchMove_def Let_def set_active_transform_def)

lemma ink_panMove [simp]: "ink (panMove e s) = ink s"
  by (simp add: panMove_def Let_def set_active_transform_def)

lemma ink_drawMove [simp]: "ink (drawMove e s) = ink s"
  by (simp add: drawMove_def Let_def split: option.split sum.split)

lemma ink_handlePointerDown [simp]: "ink (handlePointerDown e s) = ink s"
  unfolding handlePointerDown_def Let_def
  by (simp split: list.split)

lemma ink_handlePointerMove [simp]: "ink (handlePointerMove e s) = ink s"
  unfolding handlePointerMove_def Let_def
  by (simp split: list.split option.split add: set_active_transform_def)

lemma quiet_handlePointerUp:
  assumes "quiet s"
  shows "ink (handlePointerUp e s) = ink s \<and> quiet (handlePointerUp e s)"
  using assms unfolding handlePointerUp_def Let_def
  by (simp add: quiet_def split: list.split)

lemma quiet_set_pane_transform [simp]: "quiet (set_pane_transform sd t s) = quiet s"
  by (simp add: set_pane_transform_def quiet_def)

lemma quiet_update [simp]:
  "quiet (s\<lparr>gestureState := g\<rparr>) = quiet s"
  "quiet (s\<lparr>pointers := m\<rparr>) = quiet s"
  "quiet (s\<lparr>failed := f\<rparr>) = quiet s"
  "quiet (s\<lparr>middleMouseLastPos := l\<rparr>) = quiet s"
  by (simp_all add: quiet_def)

lemma quiet_pinchMove [simp]: "quiet (pinchMove p1 p2 s) = quiet s"
  by (simp add: pinchMove_def Let_def set_active_transform_def)

lemma quiet_panMove [simp]: "quiet (panMove e s) = quiet s"
  by (simp add: panMove_def Let_def set_active_transform_def)

lemma quiet_drawMove: "quiet s \<Longrightarrow> drawMove e s = s"
  by (simp add: drawMove_def Let_def quiet_def)

lemma quiet_handlePointerMove:
  assumes "quiet s"
  shows "quiet (handlePointerMove e s)"
  using assms unfolding handlePointerMove_def Let_def
  by (simp split: list.split option.split add: set_active_transform_def quiet_drawMove)


lemma map_set_keys: "map_has m k \<Longrightarrow> map fst (map_set m k v) = map fst m"
proof (induction m)
  case Nil
  then show ?case by (simp add: map_has_def)
next
  case (Cons kv m)
  show ?case
  proof (cases "fst kv = k")
    case True
    then show ?thesis by (cases kv) simp
  next
    case False
    then have "map_has m k" using Cons.prems by (auto simp add: map_has_def)
    then show ?thesis using Cons.IH False by (cases kv) simp
  qed
qed

lemma map_set_not_empty [simp]: "map_set m k v \<noteq> []"
  by (cases m) (auto split: if_splits)

lemma pointers_set_pane_transform [simp]: "pointers (set_pane_transform sd t s) = pointers s"
  by (simp add: set_pane_transform_def)

lemma pointers_beginStroke [simp]: "pointers (beginStroke sd e s) = pointers s"
  by (simp add: beginStroke_def Let_def split: sum.split)

lemma pointers_pinchMove [simp]: "pointers (pinchMove p1 p2 s) = pointers s"
  by (simp add: pinchMove_def Let_def set_active_transform_def)

lemma pointers_panMove [simp]: "pointers (panMove e s) = pointers s"
  by (simp add: panMove_def Let_def set_active_transform_def)

lemma pointers_drawMove [simp]: "pointers (drawMove e s) = pointers s"
  by (simp add: drawMove_def Let_def split: option.split sum.split)

lemma keys_handlePointerMove: "map fst (pointers (handlePointerMove e s)) = map fst (pointers s)"
  unfolding handlePointerMove_def Let_def
  by (simp split: list.split option.split add: set_active_transform_def map_set_keys)

lemma registers_set_pane_transform [simp]: "registers e (set_pane_transform sd t s) = registers e s"
  by (simp add: set_pane_transform_def registers_def xPct_def)

lemma registers_update [simp]:
  "registers e (s\<lparr>gestureState := g\<rparr>) = registers e s"
  "registers e (s\<lparr>pointers := m\<rparr>) = registers e s"
  "registers e (s\<lparr>activeSide := sd\<rparr>) = registers e s"
  "registers e (s\<lparr>currentPath := c\<rparr>) = registers e s"
  "registers e (s\<lparr>currentRefPath := c\<rparr>) = registers e s"
  "registers e (s\<lparr>failed := f\<rparr>) = registers e s"
  "registers e (s\<lparr>isMiddleMousePanning := b\<rparr>) = registers e s"
  "registers e (s\<lparr>middleMouseLastPos := l\<rparr>) = registers e s"
  by (simp_all add: registers_def xPct_def)

lemma registers_pinchMove [simp]: "registers e (pinchMove p1 p2 s) = registers e s"
  by (simp add: pinchMove_def Let_def set_active_transform_def)

lemma registers_panMove [simp]: "registers e (panMove m s) = registers e s"
  by (simp add: panMove_def Let_def set_active_transform_def)

lemma registers_drawMove [simp]: "registers e (drawMove m s) = registers e s"
  by (simp add: drawMove_def Let_def split: option.split sum.split)

lemma registers_beginStroke [simp]: "registers e (beginStroke sd m s) = registers e s"
  by (simp add: beginStroke_def Let_def split: sum.split)

lemma registers_handlePointerMove [simp]: "registers e (handlePointerMove m s) = registers e s"
  unfolding handlePointerMove_def Let_def
  by (simp split: list.split option.split add: set_active_transform_def)

lemma registers_handlePointerDown [simp]: "registers e (handlePointerDown m s) = registers e s"
  unfolding handlePointerDown_def Let_def
  by (simp split: list.split)

lemma registered_pointer_down:
  assumes "registers e s"
  shows "handlePointerDown e s =
    (let sd = sideAt e s;
         s1 = s\<lparr>activeSide := sd, pointers := map_set (pointers s) (pointerId e) e\<rparr>
     in case map snd (pointers s1) of
          [] \<Rightarrow> s1
        | [p] \<Rightarrow>
            if tool s1 = Hand then
              s1\<lparr>gestureState := (gestureState s1)\<lparr>lastPos := Some (clientX e, clientY e)\<rparr>\<rparr>
            else beginStroke sd e s1
        | [p1, p2] \<Rightarrow>
            s1\<lparr>currentPath := None, currentRefPath := None,
               gestureState := (gestureState s1)
                 \<lparr>lastDist := getDist p1 p2, lastCenter := Some (getCenter p1 p2)\<rparr>\<rparr>
        | _ \<Rightarrow> s1)"
proof -
  from assms have b: "button e \<noteq> 1"
    and c: "\<not> (isComparing s \<and> Math_abs (xPct e s - sliderPos s) < Fin 0.05)"
    by (simp_all add: registers_def)
  show ?thesis
    unfolding handlePointerDown_def by (simp only: b c if_False)
qed

lemma first_pointer_down:
  assumes "pointers s = []" and "registers e s"
  shows "map fst (pointers (handlePointerDown e s)) = [pointerId e]"
  by (simp add: registered_pointer_down [OF assms(2)] assms(1) Let_def)

lemma second_pointer_down:
  assumes "map fst (pointers s) = [i]" and "registers e s" and "pointerId e \<noteq> i"
  shows "quiet (handlePointerDown e s)"
proof -
  from assms(1) obtain v where m: "pointers s = [(i, v)]" by (cases "pointers s") auto
  show ?thesis
    using assms(3) by (simp add: registered_pointer_down [OF assms(2)] m Let_def quiet_def)
qed

lemma unregistered_pointer_down:
  assumes "\<not> registers e s" and "button e \<noteq> 1"
  shows "handlePointerDown e s = s"
  using assms by (simp add: handlePointerDown_def registers_def)

lemma moves_keep:
  "ink (onPointers (map PointerMove ms) s) = ink s
   \<and> map fst (pointers (onPointers (map PointerMove ms) s)) = map fst (pointers s)
   \<and> registers e (onPointers (map PointerMove ms) s) = registers e s"
  by (induction ms arbitrary: s) (simp_all add: onPointers_def keys_handlePointerMove)

lemma quiet_run:
  assumes "quiet s" and "\<forall>ev\<in>set evs. \<not> is_down ev"
  shows "ink (onPointers evs s) = ink s \<and> quiet (onPointers evs s)"
  using assms
proof (induction evs arbitrary: s)
  case Nil
  then show ?case by (simp add: onPointers_def)
next
  case (Cons ev evs)
  have step: "ink (onPointer ev s) = ink s \<and> quiet (onPointer ev s)"
    using Cons.prems by (cases ev) (simp_all add: quiet_handlePointerUp quiet_handlePointerMove)
  have "ink (onPointers evs (onPointer ev s)) = ink (onPointer ev s)
        \<and> quiet (onPointers evs (onPointer ev s))"
    using Cons.IH [of "onPointer ev s"] step Cons.prems(2) by simp
  then show ?case using step by (simp add: onPointers_def)
qed





section \<open>Properties of the edge-snap analyzer\<close>

subsection \<open>The clamp and the scan\<close>

lemma hypot_scale: "0 \<le> c \<Longrightarrow> hypot (a * c) (b * c) = hypot a b * c"
proof -
  assume c: "0 \<le> c"
  have "a * c * (a * c) + b * c * (b * c) = (a * a + b * b) * (c * c)"
    by (simp add: algebra_simps)
  then have "hypot (a * c) (b * c) = sqrt (a * a + b * b) * sqrt (c * c)"
    by (simp add: hypot_def real_sqrt_mult)
  then show ?thesis using c by (simp add: hypot_def)
qed

lemma snapClamp_within:
  "\<exists>rx ry. snapClamp (Fin wx) (Fin wy) img (Fin bx) (Fin by) = (Fin rx, Fin ry)
      \<and> hypot (rx - wx) (ry - wy) \<le> 6"
proof -
  define dx where "dx = bx - real (img_width img) / 2 - wx"
  define dy where "dy = by - real (img_height img) / 2 - wy"
  define d where "d = hypot dx dy"
  show ?thesis
  proof (cases "6 < d")
    case True
    then have d0: "d \<noteq> 0" by simp
    have r: "snapClamp (Fin wx) (Fin wy) img (Fin bx) (Fin by)
        = (Fin (wx + dx * (6 / d)), Fin (wy + dy * (6 / d)))"
      using True d0 by (simp add: snapClamp_def Let_def dx_def dy_def d_def)
    have "hypot (dx * (6 / d)) (dy * (6 / d)) = hypot dx dy * (6 / d)"
      using True by (intro hypot_scale) simp
    also have "\<dots> = 6" using d0 by (simp add: d_def)
    finally show ?thesis using r by simp
  next
    case False
    then have r: "snapClamp (Fin wx) (Fin wy) img (Fin bx) (Fin by)
        = (Fin (wx + dx), Fin (wy + dy))"
      by (simp add: snapClamp_def Let_def dx_def dy_def d_def)
    show ?thesis using r False by (simp add: d_def)
  qed
qed

lemma scan_step_cases:
  "scan_step c (px, py) (m, bx, by) = (m, bx, by)
   \<or> (\<exists>sc. scan_step c (px, py) (m, bx, by) = (sc, px, py))"
  by (simp add: scan_step_def Let_def)

lemma fold_scan_best_fin:
  assumes "\<forall>cand\<in>set cands. is_fin (fst cand) \<and> is_fin (snd cand)"
    and "is_fin bx" and "is_fin by"
  shows "is_fin (fst (snd (fold (scan_step c) cands (m, bx, by))))
       \<and> is_fin (snd (snd (fold (scan_step c) cands (m, bx, by))))"
  using assms
proof (induction cands arbitrary: m bx "by")
  case Nil
  then show ?case by simp
next
  case (Cons cand cands)
  obtain px py where cand: "cand = (px, py)" by (cases cand)
  from scan_step_cases [of c px py m bx "by"]
  show ?case
  proof
    assume "scan_step c (px, py) (m, bx, by) = (m, bx, by)"
    then show ?thesis using Cons cand by simp
  next
    assume "\<exists>sc. scan_step c (px, py) (m, bx, by) = (sc, px, py)"
    then obtain sc where "scan_step c (px, py) (m, bx, by) = (sc, px, py)" ..
    then show ?thesis using Cons.IH [of px py sc] Cons.prems cand by simp
  qed
qed

lemma fold_scan_skip:
  assumes "\<forall>cand\<in>set cands. edgeStrength c (fst cand) (snd cand) < Fin 5"
  shows "fold (scan_step c) cands acc = acc"
  using assms
proof (induction cands arbitrary: acc)
  case Nil
  then show ?case by simp
next
  case (Cons cand cands)
  have "scan_step c cand acc = acc"
    using Cons.prems by (cases cand; cases acc) (simp add: scan_step_def Let_def)
  then show ?case using Cons by simp
qed

lemma scan_step_no_direction:
  assumes "\<not> hasDirection c"
  shows "scan_step c (px, py) (m, bx, by) =
     (if edgeStrength c px py < Fin 5 then (m, bx, by)
      else if edgeStrength c px py - Math_hypot (px - imgX c) (py - imgY c) * Fin 5 > m
           then (edgeStrength c px py - Math_hypot (px - imgX c) (py - imgY c) * Fin 5, px, py)
           else (m, bx, by))"
  using assms by (simp add: scan_step_def Let_def)

subsection \<open>The neighbourhood on a finite position\<close>

lemma cursorPixel_fin:
  "cursorPixel img (Fin wx) (Fin wy)
     = (Fin (of_int (pixel_of (img_width img) wx)), Fin (of_int (pixel_of (img_height img) wy)))"
  by (simp add: cursorPixel_def pixel_of_def)

lemma snapWindow_fin:
  "snapWindow img (Fin wx) (Fin wy) =
     (Fin (of_int (max 1 (pixel_of (img_width img) wx - 8))),
      Fin (of_int (max 1 (pixel_of (img_height img) wy - 8))),
      Fin (of_int (min (int (img_width img) - 1) (pixel_of (img_width img) wx + 8))),
      Fin (of_int (min (int (img_height img) - 1) (pixel_of (img_height img) wy + 8))))"
  by (simp add: snapWindow_def cursorPixel_fin Let_def of_int_max of_int_min)

lemma windowCollapsed_fin:
  "windowCollapsed img (Fin wx) (Fin wy) \<longleftrightarrow>
     min (int (img_width img) - 1) (pixel_of (img_width img) wx + 8)
       - max 1 (pixel_of (img_width img) wx - 8) \<le> 2
   \<or> min (int (img_height img) - 1) (pixel_of (img_height img) wy + 8)
       - max 1 (pixel_of (img_height img) wy - 8) \<le> 2"
proof -
  have a: "\<And>a b :: int. (real_of_int a - real_of_int b \<le> 2) = (a - b \<le> 2)"
    by linarith
  show ?thesis
    unfolding windowCollapsed_def snapWindow_fin by (simp add: a)
qed

lemma snapWindow_int:
  "snapWindow img (Fin wx) (Fin wy) =
     (Fin (of_int (win_start (img_width img) wx)), Fin (of_int (win_start (img_height img) wy)),
      Fin (of_int (win_end (img_width img) wx)), Fin (of_int (win_end (img_height img) wy)))"
  by (simp add: snapWindow_fin win_start_def win_end_def)

lemma windowCollapsed_int:
  "windowCollapsed img (Fin wx) (Fin wy) \<longleftrightarrow>
     win_end (img_width img) wx - win_start (img_width img) wx \<le> 2
   \<or> win_end (img_height img) wy - win_start (img_height img) wy \<le> 2"
  by (simp add: windowCollapsed_fin win_start_def win_end_def)

lemma to_long_int:
  "- 2147483648 \<le> z \<Longrightarrow> z \<le> 2147483647 \<Longrightarrow> to_long (Fin (of_int z)) = Inr z"
  by (simp add: to_long_def Let_def)

lemma for_range_int:
  "for_range (Fin (of_int a)) (Fin (of_int b)) = Some (map (\<lambda>i. Fin (of_int a + real i)) [0..<nat (b - a)])"
proof -
  have "\<lceil>real_of_int b - real_of_int a\<rceil> = b - a"
    by (metis ceiling_of_int of_int_diff)
  then show ?thesis by (simp add: for_range_def)
qed

lemma getImageData_int:
  assumes "0 \<le> x" "x \<le> 2147483647" "0 \<le> y" "y \<le> 2147483647"
    and "0 < w" "w \<le> 2147483647" "0 < h" "h \<le> 2147483647"
  shows "getImageData img (Fin (of_int x)) (Fin (of_int y)) (Fin (of_int w)) (Fin (of_int h))
           = Inr (image_bytes img x y (nat w) (nat h))"
  using assms by (simp add: getImageData_def to_long_int)

lemma scanContext_block:
  assumes "\<not> windowCollapsed img (Fin wx) (Fin wy)"
    and "img_width img < 2 ^ 31" and "img_height img < 2 ^ 31"
  shows "\<exists>c. scanContext img (Fin wx) (Fin wy) prev = Inr c
           \<and> imgX c = Fin (of_int (pixel_of (img_width img) wx))
           \<and> imgY c = Fin (of_int (pixel_of (img_height img) wy))
           \<and> hasDirection c = snd (snd (drawDirection prev))
           \<and> reads_block c img (win_start (img_width img) wx - 1) (win_start (img_height img) wy - 1)
                (nat (min (int (img_width img)) (win_end (img_width img) wx + 2)
                        - (win_start (img_width img) wx - 1)))
                (nat (min (int (img_height img)) (win_end (img_height img) wy + 2)
                        - (win_start (img_height img) wy - 1)))"
proof -
  define sx where "sx = win_start (img_width img) wx"
  define sy where "sy = win_start (img_height img) wy"
  define ex where "ex = win_end (img_width img) wx"
  define ey where "ey = win_end (img_height img) wy"
  define padx where "padx = sx - 1"
  define pady where "pady = sy - 1"
  define padw where "padw = min (int (img_width img)) (ex + 2) - padx"
  define padh where "padh = min (int (img_height img)) (ey + 2) - pady"
  have win: "snapWindow img (Fin wx) (Fin wy)
      = (Fin (of_int sx), Fin (of_int sy), Fin (of_int ex), Fin (of_int ey))"
    by (simp add: snapWindow_int sx_def sy_def ex_def ey_def)
  have open_x: "2 < ex - sx" and open_y: "2 < ey - sy"
    using assms(1) by (simp_all add: windowCollapsed_int sx_def sy_def ex_def ey_def)
  have wlim: "int (img_width img) \<le> 2147483647" and hlim: "int (img_height img) \<le> 2147483647"
    using assms(2,3) by simp_all
  have sx1: "1 \<le> sx" and sy1: "1 \<le> sy" by (simp_all add: sx_def sy_def win_start_def)
  have exw: "ex \<le> int (img_width img) - 1" and eyh: "ey \<le> int (img_height img) - 1"
    by (simp_all add: ex_def ey_def win_end_def)
  have bx: "0 \<le> padx" "padx \<le> 2147483647" "0 < padw" "padw \<le> 2147483647"
    using sx1 exw open_x wlim by (simp_all add: padx_def padw_def)
  have bny: "0 \<le> pady" "pady \<le> 2147483647" "0 < padh" "padh \<le> 2147483647"
    using sy1 eyh open_y hlim by (simp_all add: pady_def padh_def)
  have px: "max 0 (real_of_int sx - 1) = real_of_int padx"
    and py: "max 0 (real_of_int sy - 1) = real_of_int pady"
    using sx1 sy1 by (simp_all add: padx_def pady_def)
  have pw: "min (real (img_width img)) (real_of_int ex + 2) - real_of_int padx = real_of_int padw"
    and ph: "min (real (img_height img)) (real_of_int ey + 2) - real_of_int pady = real_of_int padh"
    by (simp_all add: padw_def padh_def of_int_min)
  have pwn: "real_of_int padw = real (nat padw)" using bx(3) by simp
  obtain dx dy hasDir where dir: "drawDirection prev = (dx, dy, hasDir)"
    by (cases "drawDirection prev") auto
  define c where "c =
     \<lparr>data = image_bytes img padx pady (nat padw) (nat padh),
      padStartX = Fin (of_int padx), padStartY = Fin (of_int pady), padW = Fin (of_int padw),
      imgX = Fin (of_int (pixel_of (img_width img) wx)),
      imgY = Fin (of_int (pixel_of (img_height img) wy)),
      dirX = dx, dirY = dy, perpX = (if hasDir then - dy else Fin 0),
      perpY = (if hasDir then dx else Fin 0), hasDirection = hasDir\<rparr>"
  have "scanContext img (Fin wx) (Fin wy) prev = Inr c"
    by (simp add: scanContext_def cursorPixel_fin win dir Let_def px py pw ph c_def
        getImageData_int [OF bx(1,2) bny(1,2) bx(3,4) bny(3,4)])
  moreover have "reads_block c img padx pady (nat padw) (nat padh)"
    by (simp add: reads_block_def c_def pwn)
  moreover have "imgX c = Fin (of_int (pixel_of (img_width img) wx))"
      "imgY c = Fin (of_int (pixel_of (img_height img) wy))"
      "hasDirection c = snd (snd (drawDirection prev))"
    by (simp_all add: c_def dir)
  ultimately show ?thesis
    unfolding padw_def padh_def padx_def pady_def sx_def sy_def ex_def ey_def by blast
qed

lemma candidates_window:
  assumes "\<forall>y\<in>set ys. \<exists>qy. y = Fin (of_int qy) \<and> sy \<le> qy \<and> qy < ey"
    and "\<forall>x\<in>set xs. \<exists>qx. x = Fin (of_int qx) \<and> sx \<le> qx \<and> qx < ex"
  shows "\<forall>cand\<in>set (candidates ys xs).
           \<exists>qx qy. cand = (Fin (of_int qx), Fin (of_int qy))
              \<and> sx \<le> qx \<and> qx < ex \<and> sy \<le> qy \<and> qy < ey"
  using assms by (fastforce simp add: candidates_def)

lemma range_window:
  "\<forall>v\<in>set (map (\<lambda>i. Fin (real_of_int a + real i)) [0..<nat (b - a)]).
      \<exists>q. v = Fin (of_int q) \<and> a \<le> q \<and> q < b"
proof
  fix v assume "v \<in> set (map (\<lambda>i. Fin (real_of_int a + real i)) [0..<nat (b - a)])"
  then obtain i where i: "i < nat (b - a)" and v: "v = Fin (real_of_int a + real i)" by auto
  have "v = Fin (of_int (a + int i))" by (simp add: v)
  moreover have "a \<le> a + int i" "a + int i < b" using i by simp_all
  ultimately show "\<exists>q. v = Fin (of_int q) \<and> a \<le> q \<and> q < b" by blast
qed

lemma scanCandidates_window:
  "\<exists>cands. scanCandidates img (Fin wx) (Fin wy) = Some cands
      \<and> (\<forall>cand\<in>set cands. \<exists>qx qy. cand = (Fin (of_int qx), Fin (of_int qy))
            \<and> win_start (img_width img) wx \<le> qx \<and> qx < win_end (img_width img) wx
            \<and> win_start (img_height img) wy \<le> qy \<and> qy < win_end (img_height img) wy)"
proof -
  let ?sx = "win_start (img_width img) wx" and ?sy = "win_start (img_height img) wy"
  let ?ex = "win_end (img_width img) wx" and ?ey = "win_end (img_height img) wy"
  let ?ys = "map (\<lambda>i. Fin (of_int ?sy + real i)) [0..<nat (?ey - ?sy)]"
  let ?xs = "map (\<lambda>i. Fin (of_int ?sx + real i)) [0..<nat (?ex - ?sx)]"
  note ys = range_window [of ?sy ?ey] and xs = range_window [of ?sx ?ex]
  show ?thesis
  proof (cases "?ys = []")
    case True
    then have "scanCandidates img (Fin wx) (Fin wy) = Some (candidates ?ys [])"
      by (simp add: scanCandidates_def snapWindow_int for_range_int)
    moreover have "candidates ?ys [] = []" by (simp add: candidates_def)
    ultimately show ?thesis by simp
  next
    case False
    then have "scanCandidates img (Fin wx) (Fin wy) = Some (candidates ?ys ?xs)"
      by (simp add: scanCandidates_def snapWindow_int for_range_int)
    then show ?thesis using candidates_window [OF ys xs] by simp
  qed
qed

subsection \<open>What the scan reads\<close>

lemma byte_index:
  fixes lx ly :: int and sw sh ch :: nat
  assumes "0 \<le> lx" "lx < int sw" "0 \<le> ly" "ly < int sh" "ch < 4"
  defines "i \<equiv> nat ((ly * int sw + lx) * 4 + int ch)"
  shows "i < sw * sh * 4" "(i div 4) mod sw = nat lx" "(i div 4) div sw = nat ly" "i mod 4 = ch"
proof -
  obtain a b where a: "lx = int a" and b: "ly = int b"
    using assms(1,3) by (metis nonneg_int_cases)
  define q where "q = b * sw + a"
  have "(ly * int sw + lx) * 4 + int ch = int (q * 4 + ch)"
    by (simp add: a b q_def)
  then have i: "i = q * 4 + ch"
    unfolding i_def by (simp only: nat_int)
  have a_lt: "a < sw" and b_lt: "b < sh" using assms(2,4) a b by simp_all
  have d4: "i div 4 = q" and m4: "i mod 4 = ch" using assms(5) by (simp_all add: i)
  show "i mod 4 = ch" by (rule m4)
  show "(i div 4) mod sw = nat lx" using a_lt by (simp add: d4 a q_def)
  show "(i div 4) div sw = nat ly" using a_lt by (simp add: d4 b q_def)
  have "q < sh * sw"
  proof -
    have "q < b * sw + sw" using a_lt by (simp add: q_def)
    also have "\<dots> = (b + 1) * sw" by simp
    also have "\<dots> \<le> sh * sw" using b_lt by (intro mult_le_mono1) simp
    finally show ?thesis .
  qed
  moreover define n where "n = sh * sw"
  ultimately have "q * 4 + ch < n * 4" using assms(5) by arith
  then show "i < sw * sh * 4" by (simp add: i n_def mult.commute)
qed

lemma data_get_int:
  "0 \<le> z \<Longrightarrow> nat z < length d \<Longrightarrow> data_get d (Fin (of_int z)) = Some (d ! nat z)"
  by (simp add: data_get_def)

lemma image_bytes_nth:
  "i < sw * sh * 4 \<Longrightarrow>
     image_bytes img x y sw sh ! i =
       channel (canvas_pixel img (x + int ((i div 4) mod sw)) (y + int ((i div 4) div sw))) (i mod 4)"
  by (simp add: image_bytes_def)

lemma data_get_image_bytes:
  fixes lx ly :: int and sw sh ch :: nat
  assumes "0 \<le> lx" "lx < int sw" "0 \<le> ly" "ly < int sh" "ch < 4"
  shows "data_get (image_bytes img x y sw sh) (Fin (of_int ((ly * int sw + lx) * 4 + int ch)))
           = Some (channel (canvas_pixel img (x + lx) (y + ly)) ch)"
proof -
  define z where "z = (ly * int sw + lx) * 4 + int ch"
  note bi = byte_index [OF assms, folded z_def]
  have z0: "0 \<le> z" using assms(1,3) by (simp add: z_def)
  have len: "length (image_bytes img x y sw sh) = sw * sh * 4"
    by (simp add: image_bytes_def)
  have "data_get (image_bytes img x y sw sh) (Fin (of_int z))
          = Some (image_bytes img x y sw sh ! nat z)"
    using z0 bi(1) by (intro data_get_int) (simp_all add: len)
  also have "image_bytes img x y sw sh ! nat z
          = channel (canvas_pixel img (x + lx) (y + ly)) ch"
    using bi assms(1,3) by (simp add: image_bytes_nth)
  finally show ?thesis unfolding z_def .
qed

lemma block_byte:
  assumes "reads_block c img x0 y0 sw sh"
    and "x0 \<le> qx" "qx < x0 + int sw" "y0 \<le> qy" "qy < y0 + int sh" "ch < 4"
  shows "data_get (data c)
            (Fin (((real_of_int qy - real_of_int y0) * real sw + (real_of_int qx - real_of_int x0)) * 4
                  + real ch))
          = Some (channel (canvas_pixel img qx qy) ch)"
proof -
  have "((real_of_int qy - real_of_int y0) * real sw + (real_of_int qx - real_of_int x0)) * 4 + real ch
        = real_of_int (((qy - y0) * int sw + (qx - x0)) * 4 + int ch)"
    by simp
  then show ?thesis
    using data_get_image_bytes [of "qx - x0" sw "qy - y0" sh ch img x0 y0] assms
    by (simp only: reads_block_def) simp
qed

lemma lum_pixel:
  assumes "reads_block c img x0 y0 sw sh"
    and "x0 \<le> qx" "qx < x0 + int sw" "y0 \<le> qy" "qy < y0 + int sh"
  shows "lum c (Fin (of_int qx)) (Fin (of_int qy)) = pixel_lum (canvas_pixel img qx qy)"
proof -
  note b = block_byte [OF assms]
  have pads: "padStartX c = Fin (of_int x0)" "padStartY c = Fin (of_int y0)" "padW c = Fin (real sw)"
    using assms(1) by (simp_all add: reads_block_def)
  obtain r g bl a where p: "canvas_pixel img qx qy = (r, g, bl, a)"
    by (cases "canvas_pixel img qx qy") auto
  show ?thesis
    using b [of 0] b [of 1] b [of 2] b [of 3]
    by (simp add: lum_def Let_def pads p pixel_lum_def to_number_def channel_def)
qed

lemma pixel_lum_fin: "is_fin (pixel_lum p)"
  by (cases p) (simp add: pixel_lum_def)

lemma pixel_alpha_fin: "is_fin (pixel_alpha p)"
  by (cases p) (simp add: pixel_alpha_def)

lemma alpha_byte:
  assumes "reads_block c img x0 y0 sw sh"
    and "x0 \<le> qx" "qx < x0 + int sw" "y0 \<le> qy" "qy < y0 + int sh"
    and "i = Fin (real_of_int (((qy - y0) * int sw + (qx - x0)) * 4 + 3))"
  shows "or_zero (data_get (data c) i) = pixel_alpha (canvas_pixel img qx qy)"
proof -
  have "data_get (data c) i = Some (channel (canvas_pixel img qx qy) 3)"
    using data_get_image_bytes [of "qx - x0" sw "qy - y0" sh 3 img x0 y0] assms
    by (simp only: reads_block_def) simp
  then show ?thesis
    by (cases "canvas_pixel img qx qy") (simp add: or_zero_def pixel_alpha_def channel_def)
qed

lemma edgeStrength_pixels:
  assumes "reads_block c img x0 y0 sw sh"
    and "x0 < qx" "qx + 1 < x0 + int sw" "y0 < qy" "qy + 1 < y0 + int sh"
  shows "edgeStrength c (Fin (of_int qx)) (Fin (of_int qy)) =
      Math_hypot (pixel_lum (canvas_pixel img (qx + 1) qy) - pixel_lum (canvas_pixel img (qx - 1) qy))
                 (pixel_lum (canvas_pixel img qx (qy + 1)) - pixel_lum (canvas_pixel img qx (qy - 1)))
      + Math_hypot (pixel_alpha (canvas_pixel img (qx + 1) qy) - pixel_alpha (canvas_pixel img (qx - 1) qy))
                   (pixel_alpha (canvas_pixel img qx (qy + 1)) - pixel_alpha (canvas_pixel img qx (qy - 1)))
          / Fin 255 * Fin 80"
proof -
  let ?X = "Fin (of_int qx)" and ?Y = "Fin (of_int qy)"
  have pads: "padStartX c = Fin (of_int x0)" "padStartY c = Fin (of_int y0)" "padW c = Fin (real sw)"
    using assms(1) by (simp_all add: reads_block_def)
  have l: "lum c (?X + Fin 1) ?Y = pixel_lum (canvas_pixel img (qx + 1) qy)"
      "lum c (?X - Fin 1) ?Y = pixel_lum (canvas_pixel img (qx - 1) qy)"
      "lum c ?X (?Y + Fin 1) = pixel_lum (canvas_pixel img qx (qy + 1))"
      "lum c ?X (?Y - Fin 1) = pixel_lum (canvas_pixel img qx (qy - 1))"
    using lum_pixel [OF assms(1), of "qx + 1" qy] lum_pixel [OF assms(1), of "qx - 1" qy]
      lum_pixel [OF assms(1), of qx "qy + 1"] lum_pixel [OF assms(1), of qx "qy - 1"] assms(2-5)
    by simp_all
  have aL: "or_zero (data_get (data c)
              (((?Y - padStartY c) * padW c + (?X - Fin 1 - padStartX c)) * Fin 4 + Fin 3))
            = pixel_alpha (canvas_pixel img (qx - 1) qy)"
    using assms(2-5) by (intro alpha_byte [OF assms(1)]) (simp_all add: pads algebra_simps)
  have aR: "or_zero (data_get (data c)
              (((?Y - padStartY c) * padW c + (?X + Fin 1 - padStartX c)) * Fin 4 + Fin 3))
            = pixel_alpha (canvas_pixel img (qx + 1) qy)"
    using assms(2-5) by (intro alpha_byte [OF assms(1)]) (simp_all add: pads algebra_simps)
  have aU: "or_zero (data_get (data c)
              (((?Y - Fin 1 - padStartY c) * padW c + (?X - padStartX c)) * Fin 4 + Fin 3))
            = pixel_alpha (canvas_pixel img qx (qy - 1))"
    using assms(2-5) by (intro alpha_byte [OF assms(1)]) (simp_all add: pads algebra_simps)
  have aD: "or_zero (data_get (data c)
              (((?Y + Fin 1 - padStartY c) * padW c + (?X - padStartX c)) * Fin 4 + Fin 3))
            = pixel_alpha (canvas_pixel img qx (qy + 1))"
    using assms(2-5) by (intro alpha_byte [OF assms(1)]) (simp_all add: pads algebra_simps)
  show ?thesis
    unfolding edgeStrength_def grad_x_def grad_y_def alphaGrad_def Let_def
    by (simp only: l aL aR aU aD)
qed

lemma edgeStrength_uniform:
  assumes "reads_block c img x0 y0 sw sh"
    and "x0 < qx" "qx + 1 < x0 + int sw" "y0 < qy" "qy + 1 < y0 + int sh"
    and "canvas_pixel img (qx + 1) qy = p" "canvas_pixel img (qx - 1) qy = p"
    and "canvas_pixel img qx (qy + 1) = p" "canvas_pixel img qx (qy - 1) = p"
  shows "edgeStrength c (Fin (of_int qx)) (Fin (of_int qy)) = Fin 0"
proof -
  obtain v where v: "pixel_lum p = Fin v" using pixel_lum_fin [of p] by (auto simp: is_fin_iff)
  obtain a where a: "pixel_alpha p = Fin a" using pixel_alpha_fin [of p] by (auto simp: is_fin_iff)
  show ?thesis
    by (simp add: edgeStrength_pixels [OF assms(1-5)] assms(6-9) v a)
qed

lemma uniform_image_below_floor:
  assumes "\<forall>x y. x < img_width img \<longrightarrow> y < img_height img \<longrightarrow> img_pixel img x y = p"
    and "\<not> windowCollapsed img (Fin wx) (Fin wy)"
    and "img_width img < 2 ^ 31" and "img_height img < 2 ^ 31"
  shows "\<exists>c cands. scanContext img (Fin wx) (Fin wy) prev = Inr c
           \<and> scanCandidates img (Fin wx) (Fin wy) = Some cands
           \<and> (\<forall>cand\<in>set cands. edgeStrength c (fst cand) (snd cand) = Fin 0)"
proof -
  define sx where "sx = win_start (img_width img) wx"
  define sy where "sy = win_start (img_height img) wy"
  define ex where "ex = win_end (img_width img) wx"
  define ey where "ey = win_end (img_height img) wy"
  define sw where "sw = nat (min (int (img_width img)) (ex + 2) - (sx - 1))"
  define sh where "sh = nat (min (int (img_height img)) (ey + 2) - (sy - 1))"
  obtain c where c: "scanContext img (Fin wx) (Fin wy) prev = Inr c"
      and blk: "reads_block c img (sx - 1) (sy - 1) sw sh"
    using scanContext_block [OF assms(2-4), of prev]
    unfolding sx_def sy_def ex_def ey_def sw_def sh_def by blast
  obtain cands where cands: "scanCandidates img (Fin wx) (Fin wy) = Some cands"
      and win: "\<forall>cand\<in>set cands. \<exists>qx qy. cand = (Fin (of_int qx), Fin (of_int qy))
            \<and> sx \<le> qx \<and> qx < ex \<and> sy \<le> qy \<and> qy < ey"
    using scanCandidates_window [of img wx wy] unfolding sx_def sy_def ex_def ey_def by blast
  have sx1: "1 \<le> sx" and sy1: "1 \<le> sy" by (simp_all add: sx_def sy_def win_start_def)
  have exw: "ex \<le> int (img_width img) - 1" and eyh: "ey \<le> int (img_height img) - 1"
    by (simp_all add: ex_def ey_def win_end_def)
  have inside: "canvas_pixel img qx qy = p"
    if "0 \<le> qx" "qx < int (img_width img)" "0 \<le> qy" "qy < int (img_height img)" for qx qy
    using that assms(1) by (simp add: canvas_pixel_def)
  have "edgeStrength c (fst cand) (snd cand) = Fin 0" if "cand \<in> set cands" for cand
  proof -
    from win that obtain qx qy where q: "cand = (Fin (of_int qx), Fin (of_int qy))"
        and b: "sx \<le> qx" "qx < ex" "sy \<le> qy" "qy < ey"
      by blast
    have wx: "qx + 1 < sx - 1 + int sw" and wy: "qy + 1 < sy - 1 + int sh"
      using b sx1 sy1 exw eyh by (simp_all add: sw_def sh_def)
    have "edgeStrength c (Fin (of_int qx)) (Fin (of_int qy)) = Fin 0"
      using b sx1 sy1 exw eyh wx wy
      by (intro edgeStrength_uniform [OF blk, of qx qy p] inside) simp_all
    then show ?thesis by (simp add: q)
  qed
  then show ?thesis using c cands by blast
qed

subsection \<open>The scan of the spot image\<close>

lemma spot_window:
  "pixel_of 5 (- 6.5) = - 4" "pixel_of 5 (- 0.5) = 2"
  "win_start 5 (- 6.5) = 1" "win_end 5 (- 6.5) = 4"
  "win_start 5 (- 0.5) = 1" "win_end 5 (- 0.5) = 4"
proof -
  have f: "\<lfloor>- (7 / 2 :: real)\<rfloor> = - 4" "\<lfloor>(5 / 2 :: real)\<rfloor> = 2"
    by (simp_all add: floor_eq_iff)
  show "pixel_of 5 (- 6.5) = - 4" "pixel_of 5 (- 0.5) = 2"
    using f by (simp_all add: pixel_of_def)
  then show "win_start 5 (- 6.5) = 1" "win_end 5 (- 6.5) = 4"
      "win_start 5 (- 0.5) = 1" "win_end 5 (- 0.5) = 4"
    by (simp_all add: win_start_def win_end_def)
qed

lemma spot_candidates:
  "scanCandidates (spot_image v) (Fin (- 6.5)) (Fin (- 0.5)) =
     Some [(Fin 1, Fin 1), (Fin 2, Fin 1), (Fin 3, Fin 1),
           (Fin 1, Fin 2), (Fin 2, Fin 2), (Fin 3, Fin 2),
           (Fin 1, Fin 3), (Fin 2, Fin 3), (Fin 3, Fin 3)]"
proof -
  have u: "[0..<3] = [0, 1, 2]" by (simp add: upt_rec)
  have r: "for_range (Fin 1) (Fin 4) = Some [Fin 1, Fin 2, Fin 3]"
    by (simp add: for_range_def u)
  show ?thesis
    using spot_window
    by (simp add: scanCandidates_def snapWindow_int spot_image_def r candidates_def)
qed

lemma spot_not_collapsed: "\<not> windowCollapsed (spot_image v) (Fin (- 6.5)) (Fin (- 0.5))"
  using spot_window by (simp add: windowCollapsed_int spot_image_def)

lemma spot_pixels:
  "canvas_pixel (spot_image v) 4 2 = (v, v, v, 255)"
  "qx \<noteq> 4 \<or> qy \<noteq> 2 \<Longrightarrow>
     canvas_pixel (spot_image v) qx qy =
       (if 0 \<le> qx \<and> qx < 5 \<and> 0 \<le> qy \<and> qy < 5 then (0, 0, 0, 255) else (0, 0, 0, 0))"
  by (auto simp add: canvas_pixel_def spot_image_def nat_eq_iff)

lemma spot_lum:
  "pixel_lum (v, v, v, 255) = Fin (real (unat v))" "pixel_lum (0, 0, 0, 255) = Fin 0"
  "pixel_alpha (v, v, v, 255) = Fin 255"
proof -
  have u: "unat (255 :: 8 word) = 255" by simp
  have "real (unat v) * 0.299 + real (unat v) * 0.587 + real (unat v) * 0.114 = real (unat v)"
    by (simp add: algebra_simps)
  then show "pixel_lum (v, v, v, 255) = Fin (real (unat v))"
    unfolding pixel_lum_def by (simp only: prod.case fin_times fin_plus u) simp
  show "pixel_lum (0, 0, 0, 255) = Fin 0" "pixel_alpha (v, v, v, 255) = Fin 255"
    by (simp_all add: pixel_lum_def pixel_alpha_def)
qed

text \<open>
  The scan of the spot image from the cursor \<open>(-6.5, -0.5)\<close>, whose pixel is \<open>(-4, 2)\<close>:
  of the nine candidates only \<open>(3, 2)\<close>, left of the spot, has a gradient, of the spot's
  value, and it lies 7 from the cursor's pixel.
\<close>

lemma spot_scan:
  "\<exists>c. scanContext (spot_image v) (Fin (- 6.5)) (Fin (- 0.5)) None = Inr c
       \<and> imgX c = Fin (- 4) \<and> imgY c = Fin 2
       \<and> edgeStrength c (Fin 3) (Fin 2) = Fin (real (unat v))
       \<and> fold (scan_step c)
             [(Fin 1, Fin 1), (Fin 2, Fin 1), (Fin 3, Fin 1),
              (Fin 1, Fin 2), (Fin 2, Fin 2), (Fin 3, Fin 2),
              (Fin 1, Fin 3), (Fin 2, Fin 3), (Fin 3, Fin 3)] (Fin (- 1), Fin (- 4), Fin 2)
           = (if real (unat v) < 5 \<or> real (unat v) \<le> 34 then (Fin (- 1), Fin (- 4), Fin 2)
              else (Fin (real (unat v) - 35), Fin 3, Fin 2))"
proof -
  let ?wx = "- 6.5 :: real" and ?wy = "- 0.5 :: real"
  have lim: "img_width (spot_image v) < 2 ^ 31" "img_height (spot_image v) < 2 ^ 31"
    by (simp_all add: spot_image_def)
  have dims: "img_width (spot_image v) = 5" "img_height (spot_image v) = 5"
    by (simp_all add: spot_image_def)
  obtain c where c: "scanContext (spot_image v) (Fin ?wx) (Fin ?wy) None = Inr c"
      and ix: "imgX c = Fin (- 4)" and iy: "imgY c = Fin 2"
      and nd: "\<not> hasDirection c"
      and blk: "reads_block c (spot_image v) 0 0 5 5"
    using scanContext_block [OF spot_not_collapsed lim, of None] spot_window
    by (auto simp add: dims drawDirection_def)
  note es = edgeStrength_pixels [OF blk]
  have e: "edgeStrength c (Fin 1) (Fin 1) = Fin 0" "edgeStrength c (Fin 2) (Fin 1) = Fin 0"
      "edgeStrength c (Fin 3) (Fin 1) = Fin 0" "edgeStrength c (Fin 1) (Fin 2) = Fin 0"
      "edgeStrength c (Fin 2) (Fin 2) = Fin 0" "edgeStrength c (Fin 3) (Fin 2) = Fin (real (unat v))"
      "edgeStrength c (Fin 1) (Fin 3) = Fin 0" "edgeStrength c (Fin 2) (Fin 3) = Fin 0"
      "edgeStrength c (Fin 3) (Fin 3) = Fin 0"
    using es [of 1 1] es [of 2 1] es [of 3 1] es [of 1 2] es [of 2 2] es [of 3 2]
      es [of 1 3] es [of 2 3] es [of 3 3] abs_of_nat [of "unat v", where ?'a = real]
    by (simp_all add: spot_pixels spot_lum)
  have f: "fold (scan_step c)
             [(Fin 1, Fin 1), (Fin 2, Fin 1), (Fin 3, Fin 1),
              (Fin 1, Fin 2), (Fin 2, Fin 2), (Fin 3, Fin 2),
              (Fin 1, Fin 3), (Fin 2, Fin 3), (Fin 3, Fin 3)] (Fin (- 1), Fin (- 4), Fin 2)
           = (if real (unat v) < 5 \<or> real (unat v) \<le> 34 then (Fin (- 1), Fin (- 4), Fin 2)
              else (Fin (real (unat v) - 35), Fin 3, Fin 2))"
    by (simp add: scan_step_no_direction [OF nd] e ix iy)
  show ?thesis using c ix iy e(6) f by blast
qed

lemma spot_snap:
  "snapToEdge (Fin (- 6.5)) (Fin (- 0.5)) (Some (spot_image 255)) None
     = Inr (Fin (- 0.5), Fin (- 0.5))"
proof -
  obtain c where c: "scanContext (spot_image 255) (Fin (- 6.5)) (Fin (- 0.5)) None = Inr c"
      and ix: "imgX c = Fin (- 4)" and iy: "imgY c = Fin 2"
      and f: "fold (scan_step c)
             [(Fin 1, Fin 1), (Fin 2, Fin 1), (Fin 3, Fin 1),
              (Fin 1, Fin 2), (Fin 2, Fin 2), (Fin 3, Fin 2),
              (Fin 1, Fin 3), (Fin 2, Fin 3), (Fin 3, Fin 3)] (Fin (- 1), Fin (- 4), Fin 2)
           = (Fin 220, Fin 3, Fin 2)"
    using spot_scan [of 255] by auto
  show ?thesis
    using spot_not_collapsed [of 255] c spot_candidates [of 255] f
    by (simp add: snapToEdge_def ix iy snapClamp_def Let_def spot_image_def)
qed

lemma faint_spot_unsnapped:
  "\<exists>c cands. scanContext (spot_image 6) (Fin (- 6.5)) (Fin (- 0.5)) None = Inr c
      \<and> scanCandidates (spot_image 6) (Fin (- 6.5)) (Fin (- 0.5)) = Some cands
      \<and> (\<exists>cand\<in>set cands. \<not> edgeStrength c (fst cand) (snd cand) < Fin 5)
      \<and> fst (fold (scan_step c) cands (Fin (- 1), imgX c, imgY c)) < Fin 5"
proof -
  obtain c where c: "scanContext (spot_image 6) (Fin (- 6.5)) (Fin (- 0.5)) None = Inr c"
      and ix: "imgX c = Fin (- 4)" and iy: "imgY c = Fin 2"
      and e: "edgeStrength c (Fin 3) (Fin 2) = Fin (real (unat (6 :: 8 word)))"
      and f: "fold (scan_step c)
             [(Fin 1, Fin 1), (Fin 2, Fin 1), (Fin 3, Fin 1),
              (Fin 1, Fin 2), (Fin 2, Fin 2), (Fin 3, Fin 2),
              (Fin 1, Fin 3), (Fin 2, Fin 3), (Fin 3, Fin 3)] (Fin (- 1), Fin (- 4), Fin 2)
           = (Fin (- 1), Fin (- 4), Fin 2)"
    using spot_scan [of 6] by auto
  have "\<not> edgeStrength c (Fin 3) (Fin 2) < Fin 5" using e by simp
  then show ?thesis
    using c spot_candidates [of 6] f ix iy by (intro exI conjI) (assumption, assumption, auto)
qed

lemma gray_image_window:
  "windowCollapsed (gray_image 3 3) (Fin 0) (Fin 0)"
  "\<not> windowCollapsed (gray_image 100 100) (Fin 0) (Fin 0)"
  by (simp_all add: windowCollapsed_int win_start_def win_end_def pixel_of_def gray_image_def)

subsection \<open>Snap distance and the unsnapped result\<close>





end
